theory Spec2Isabelle
  imports Complex_Main "HOL-Library.Multiset"
begin

section \<open>GlowPath: deterministic scoring, reconciliation and alternatives ranking\<close>

text \<open>
  The TypeScript sources have one numeric type, \<open>number\<close>, the IEEE 754 binary64
  format. A finite \<open>number\<close> is modelled by the real it denotes (\<^typ>\<open>real\<close>). Comparisons,
  \<open>Math.max\<close> and \<open>Math.min\<close> are exact on these; \<open>Math.round x\<close> is \<open>\<lfloor>x + 1/2\<rfloor>\<close> (ties
  go up), which is HOL's \<^const>\<open>round\<close>. An arithmetic operation returns the exact result
  rounded to the nearest binary64 value, ties to the even significand (\<open>fl64\<close> below),
  and a decimal literal of that arithmetic (\<open>0.7\<close>, \<open>0.3\<close>) denotes the binary64 value
  nearest to it. A number that is only compared or handed on (a radiance, a confidence)
  is written as the decimal it prints as. \<open>NaN\<close> and the infinities are not values of the
  model: the callers reject them with \<open>Number.isFinite\<close> before any scoring function
  runs, and where a conversion can yield them the model returns \<open>None\<close>.
\<close>

type_synonym number = real

text \<open>
  The repository holds several versions of its two files. Of \<open>lib.ts\<close>: one that calls
  the Places, CrimeoMeter and Gemini services from the client, and two that go through a
  backend proxy, the later of which also proxies the classification and knows
  \<open>open_at_time\<close>. Of \<open>App.tsx\<close>: one with pasted API keys and one with the time-aware
  alternatives. The scoring functions and \<open>assembleFinalResult\<close> are the same in all of
  them and are modelled once. Where the versions differ, each is modelled under its own
  name: \<open>fetchCrimeoMeterCsi_direct\<close> and \<open>fetchCrimeoMeterCsi_backend\<close>,
  \<open>geminiClassify\<close> (schema-validated) and \<open>geminiClassify_backend\<close>, \<open>assess\<close> and
  \<open>assess_keyed\<close>; \<open>findAlternatives\<close> is the time-aware one.
\<close>

subsection \<open>Binary64 arithmetic\<close>

text \<open>
  The exponent of the binade of \<open>a > 0\<close>: the greatest \<open>e \<le> k\<close> with \<open>2 powi e \<le> a\<close>, and
  \<open>-1022\<close> (the exponent of the subnormal numbers) when there is none above it.
\<close>

function binade :: "real \<Rightarrow> int \<Rightarrow> int" where
  "binade a k = (if k \<le> - 1022 \<or> 2 powi k \<le> a then k else binade a (k - 1))"
  by auto
termination
  by (relation "measure (\<lambda>(a, k). nat (k + 1022))") auto

declare binade.simps [simp del]

text \<open>Rounding to the nearest integer, ties to the even one.\<close>

definition rne :: "real \<Rightarrow> int" where
  "rne x =
     (let f = \<lfloor>x\<rfloor>; d = x - of_int f
      in if d < 1 / 2 then f
         else if 1 / 2 < d then f + 1
         else if even f then f else f + 1)"

text \<open>
  Rounding to binary64: in the binade of exponent \<open>e\<close> the representable values are the
  multiples of \<open>2 powi (e - 52)\<close>. A magnitude of \<open>2 powi 1024\<close> or more overflows to an infinity
  and is outside the model; the scoring functions stay within \<open>[0, 100]\<close>.
\<close>

definition fl64 :: "real \<Rightarrow> real" where
  "fl64 x =
     (if x = 0 then 0
      else (let a = \<bar>x\<bar>;
                e = binade a 1023;
                u = 2 powi (e - 52)
            in sgn x * (of_int (rne (a / u)) * u)))"

text \<open>The operators \<open>*\<close>, \<open>+\<close> and \<open>-\<close> on numbers.\<close>

definition mul64 :: "number \<Rightarrow> number \<Rightarrow> number" where
  "mul64 a b = fl64 (a * b)"

definition add64 :: "number \<Rightarrow> number \<Rightarrow> number" where
  "add64 a b = fl64 (a + b)"

definition sub64 :: "number \<Rightarrow> number \<Rightarrow> number" where
  "sub64 a b = fl64 (a - b)"

subsection \<open>Data model (\<open>lib.ts\<close>)\<close>

datatype RiskLevel = SAFE | CAUTION | UNSAFE

datatype Classification =
  C_SAFE | C_UNSAFE | C_SOCIAL_BALANCED | C_INFRA_MISMATCH | C_UNCERTAIN

record LatLng =
  lat :: number
  lng :: number

text \<open>The value \<open>geminiClassify\<close> resolves to (the type of \<open>modelOut\<close>).\<close>

record ModelOut =
  m_risk_level :: RiskLevel
  m_classification :: Classification
  m_confidence :: number
  m_rationale :: string

record GlowPathResult =
  vibe_score :: number
  risk_level :: RiskLevel
  classification :: Classification
  social_warmth :: number
  lighting_score :: number
  crime_baseline :: number
  confidence :: number
  safe_haven_nearby :: bool
  rationale :: string

text \<open>
  \<open>PlaceCandidate\<close>: optional fields are options; \<open>open_at_time?: boolean | null\<close> is
  \<open>Some True\<close>, \<open>Some False\<close> or \<open>None\<close> (both \<open>null\<close> and absent: the code only ever
  compares it with \<open>=== true\<close> and \<open>!== false\<close>).
\<close>

record PlaceCandidate =
  open_at_time :: "bool option"
  hours_known :: "bool option"
  name :: string
  address :: "string option"
  location :: LatLng
  placeId :: "string option"
  c_vibe_score :: "number option"
  c_risk_level :: "RiskLevel option"

subsection \<open>Deterministic scoring (\<open>lib.ts\<close>)\<close>

definition lightingScoreFromRadiance :: "number \<Rightarrow> number" where
  "lightingScoreFromRadiance r =
     (let rad = max 0 r in
      if rad < 0.5 then 15
      else if rad < 2.0 then 35
      else if rad < 10.0 then 65
      else 85)"

definition vibeScore :: "number \<Rightarrow> number \<Rightarrow> number" where
  "vibeScore crimeCsi lightingScore =
     (let csi = max 0 (min 100 crimeCsi);
          light = max 0 (min 100 lightingScore)
      in of_int (round (add64 (mul64 (fl64 0.7) (sub64 100 csi)) (mul64 (fl64 0.3) light))))"

definition socialWarmthProxy :: "number \<Rightarrow> number \<Rightarrow> number" where
  "socialWarmthProxy crimeCsi lightingScore =
     (let csi = max 0 (min 100 crimeCsi);
          light = max 0 (min 100 lightingScore)
      in of_int (round (add64 (mul64 (fl64 0.7) light) (mul64 (fl64 0.3) (sub64 100 csi)))))"

definition riskLevelFromVibe :: "number \<Rightarrow> RiskLevel" where
  "riskLevelFromVibe v =
     (if v \<ge> 65 then SAFE
      else if v \<ge> 40 then CAUTION
      else UNSAFE)"

text \<open>The ordering \<open>UNSAFE < CAUTION < SAFE\<close> of the risk bands, as a rank.\<close>

fun riskRank :: "RiskLevel \<Rightarrow> nat" where
  "riskRank UNSAFE = 0"
| "riskRank CAUTION = 1"
| "riskRank SAFE = 2"

definition assembleFinalResult ::
  "number \<Rightarrow> number \<Rightarrow> number \<Rightarrow> number \<Rightarrow> ModelOut \<Rightarrow> GlowPathResult" where
  "assembleFinalResult p_vibe_score p_lighting_score p_crime_baseline p_social_warmth modelOut =
     \<lparr> vibe_score = p_vibe_score,
       risk_level = m_risk_level modelOut,
       classification = m_classification modelOut,
       social_warmth = p_social_warmth,
       lighting_score = p_lighting_score,
       crime_baseline = p_crime_baseline,
       confidence = m_confidence modelOut,
       safe_haven_nearby = False,
       rationale = m_rationale modelOut \<rparr>"

subsection \<open>Errors\<close>

text \<open>
  Every \<open>throw\<close> of the sources is a value of \<open>error\<close>: the \<open>Error\<close> objects by their
  message, \<open>ZodError\<close> for a failed \<open>outputSchema.parse\<close>, \<open>SyntaxError\<close> for a body
  that is not JSON, \<open>TypeError\<close> for a property read on \<open>null\<close>, \<open>NetworkError\<close>
  for a rejected \<open>fetch\<close>.
\<close>

datatype error =
    NoPlaceFound
  | RadianceNotNumber
  | KeysMissing
  | BackendFailed string nat string
  | MissingCsi
  | ZodError
  | SyntaxError
  | TypeError
  | NetworkError

subsection \<open>\<open>assess\<close> (\<open>App.tsx\<close>)\<close>

record ClassifyArgs =
  a_csi :: number
  a_radiance :: number
  a_vibe_score :: number
  a_lighting_score :: number

text \<open>
  \<open>assess\<close> awaits three collaborators in sequence. Their outcomes are parameters:
  \<open>placeResult\<close> is what \<open>placeTextSearch\<close> resolved to (or threw),
  \<open>fetchCsi\<close> is \<open>fetchCrimeoMeterCsi\<close> as a function of the location,
  \<open>radianceInput\<close> is \<open>Number(radianceOverride)\<close> (\<open>None\<close> when it is not finite) and
  \<open>classify\<close> is \<open>geminiClassify\<close> as a function of its arguments. The result is the
  value handed to \<open>setResult\<close>, or the error that the \<open>catch\<close> block reports.
\<close>

definition assess ::
  "(error + PlaceCandidate option) \<Rightarrow> (LatLng \<Rightarrow> error + number) \<Rightarrow> number option \<Rightarrow>
   (ClassifyArgs \<Rightarrow> error + ModelOut) \<Rightarrow> error + GlowPathResult" where
  "assess placeResult fetchCsi radianceInput classify =
     (case placeResult of
        Inl e \<Rightarrow> Inl e
      | Inr None \<Rightarrow> Inl NoPlaceFound
      | Inr (Some dest) \<Rightarrow>
          (case fetchCsi (location dest) of
             Inl e \<Rightarrow> Inl e
           | Inr csi \<Rightarrow>
               (case radianceInput of
                  None \<Rightarrow> Inl RadianceNotNumber
                | Some radiance \<Rightarrow>
                    (let lighting = lightingScoreFromRadiance radiance;
                         vibe = vibeScore csi lighting;
                         warmth = socialWarmthProxy csi lighting
                     in case classify \<lparr> a_csi = csi, a_radiance = radiance,
                                         a_vibe_score = vibe, a_lighting_score = lighting \<rparr> of
                          Inl e \<Rightarrow> Inl e
                        | Inr modelOut \<Rightarrow>
                            (let expected = riskLevelFromVibe vibe;
                                 fixedModelOut = modelOut\<lparr> m_risk_level := expected \<rparr>
                             in Inr (assembleFinalResult vibe lighting (of_int (round csi))
                                       warmth fixedModelOut))))))"

text \<open>
  The variant of \<open>assess\<close> with pasted API keys differs only by its first check,
  \<open>if (!canRun) throw\<close>.
\<close>

definition assess_keyed ::
  "bool \<Rightarrow> (error + PlaceCandidate option) \<Rightarrow> (LatLng \<Rightarrow> error + number) \<Rightarrow> number option \<Rightarrow>
   (ClassifyArgs \<Rightarrow> error + ModelOut) \<Rightarrow> error + GlowPathResult" where
  "assess_keyed canRun placeResult fetchCsi radianceInput classify =
     (if \<not> canRun then Inl KeysMissing
      else assess placeResult fetchCsi radianceInput classify)"

subsection \<open>\<open>findAlternatives\<close> (\<open>App.tsx\<close>)\<close>

text \<open>The scoring loop: one crime-baseline fetch per candidate, the first failure aborts.\<close>

fun scoreShortlist ::
  "(LatLng \<Rightarrow> error + number) \<Rightarrow> number \<Rightarrow> PlaceCandidate list \<Rightarrow> error + PlaceCandidate list" where
  "scoreShortlist fetchCsi lighting [] = Inr []"
| "scoreShortlist fetchCsi lighting (c # cs) =
     (case fetchCsi (location c) of
        Inl e \<Rightarrow> Inl e
      | Inr csi \<Rightarrow>
          (let vibe = vibeScore csi lighting;
               c' = c\<lparr> c_vibe_score := Some vibe, c_risk_level := Some (riskLevelFromVibe vibe) \<rparr>
           in case scoreShortlist fetchCsi lighting cs of
                Inl e \<Rightarrow> Inl e
              | Inr scored \<Rightarrow> Inr (c' # scored)))"

text \<open>The filter predicate \<open>p.open_at_time !== false\<close>.\<close>

definition keptAtTime :: "PlaceCandidate \<Rightarrow> bool" where
  "keptAtTime p = (open_at_time p \<noteq> Some False)"

text \<open>\<open>b.vibe_score ?? 0\<close>\<close>

definition vibeOrZero :: "PlaceCandidate \<Rightarrow> number" where
  "vibeOrZero p = (case c_vibe_score p of None \<Rightarrow> 0 | Some v \<Rightarrow> v)"

text \<open>
  The comparator passed to \<open>kept.sort\<close>. Only the sign of its result is used, and the
  difference of two binary64 values has the sign of their exact difference, so the
  subtractions are written exactly.
\<close>

definition compareAlternatives :: "PlaceCandidate \<Rightarrow> PlaceCandidate \<Rightarrow> number" where
  "compareAlternatives a b =
     (let ao = (if open_at_time a = Some True then 1 else 0);
          bo = (if open_at_time b = Some True then 1 else 0)
      in if bo \<noteq> ao then bo - ao
         else vibeOrZero b - vibeOrZero a)"

text \<open>
  \<open>Array.prototype.sort(comparefn)\<close> is stable (ECMAScript 2019) and, for a comparator
  that is a consistent ordering, puts \<open>a\<close> before \<open>b\<close> whenever \<open>comparefn(a, b) < 0\<close>.
  That contract fixes the result; it is computed here by a stable insertion sort: an
  element goes in front of the first later element it does not compare greater than.
\<close>

fun insertBy :: "('a \<Rightarrow> 'a \<Rightarrow> number) \<Rightarrow> 'a \<Rightarrow> 'a list \<Rightarrow> 'a list" where
  "insertBy comparefn x [] = [x]"
| "insertBy comparefn x (y # ys) =
     (if comparefn x y \<le> 0 then x # y # ys else y # insertBy comparefn x ys)"

fun array_sort :: "('a \<Rightarrow> 'a \<Rightarrow> number) \<Rightarrow> 'a list \<Rightarrow> 'a list" where
  "array_sort comparefn [] = []"
| "array_sort comparefn (x # xs) = insertBy comparefn x (array_sort comparefn xs)"

text \<open>Filter, sort, \<open>slice(0, 5)\<close>: the last three statements of \<open>findAlternatives\<close>.\<close>

definition rankAlternatives :: "PlaceCandidate list \<Rightarrow> PlaceCandidate list" where
  "rankAlternatives scored =
     (let kept = filter keptAtTime scored;
          sorted_kept = array_sort compareAlternatives kept
      in take 5 sorted_kept)"

definition findAlternatives ::
  "(error + PlaceCandidate option) \<Rightarrow> (LatLng \<Rightarrow> error + PlaceCandidate list) \<Rightarrow>
   (LatLng \<Rightarrow> error + number) \<Rightarrow> number option \<Rightarrow> error + PlaceCandidate list" where
  "findAlternatives placeResult nearby fetchCsi radianceInput =
     (case placeResult of
        Inl e \<Rightarrow> Inl e
      | Inr None \<Rightarrow> Inl NoPlaceFound
      | Inr (Some dest) \<Rightarrow>
          (case nearby (location dest) of
             Inl e \<Rightarrow> Inl e
           | Inr candidates \<Rightarrow>
               (case radianceInput of
                  None \<Rightarrow> Inl RadianceNotNumber
                | Some radiance \<Rightarrow>
                    (let lighting = lightingScoreFromRadiance radiance;
                         shortlist = take 10 candidates
                     in case scoreShortlist fetchCsi lighting shortlist of
                          Inl e \<Rightarrow> Inl e
                        | Inr scored \<Rightarrow> Inr (rankAlternatives scored)))))"

text \<open>The three candidates of the ranking scenario.\<close>

definition cand :: "string \<Rightarrow> bool option \<Rightarrow> number \<Rightarrow> PlaceCandidate" where
  "cand n opn v =
     \<lparr> open_at_time = opn, hours_known = None, name = n, address = None,
       location = \<lparr> lat = 0, lng = 0 \<rparr>, placeId = None,
       c_vibe_score = Some v, c_risk_level = Some (riskLevelFromVibe v) \<rparr>"

definition cand_A :: PlaceCandidate where "cand_A = cand ''A'' (Some False) 90"
definition cand_B :: PlaceCandidate where "cand_B = cand ''B'' (Some True) 50"
definition cand_C :: PlaceCandidate where "cand_C = cand ''C'' None 80"

subsection \<open>Upstream responses\<close>

text \<open>
  A parsed JSON value. An object is the list of its members, keys distinct (what
  \<open>JSON.parse\<close> returns); a finite number is a \<open>JNum\<close>.
\<close>

datatype json =
    JNull
  | JBool bool
  | JNum number
  | JStr string
  | JArr "json list"
  | JObj "(string \<times> json) list"

text \<open>
  What the code reads of a \<open>fetch\<close> response: \<open>res.status\<close> (\<open>res.ok\<close> is a status in
  200..299), the body parsed by \<open>res.json()\<close> (\<open>None\<close> when it is not JSON) and the body
  as text.
\<close>

record HttpResponse =
  status :: nat
  json_body :: "json option"
  text_body :: string

definition res_ok :: "HttpResponse \<Rightarrow> bool" where
  "res_ok res = (200 \<le> status res \<and> status res \<le> 299)"

text \<open>
  \<open>v.k\<close> on a value that is neither \<open>null\<close> nor \<open>undefined\<close>: the member of an object,
  \<open>undefined\<close> (\<open>None\<close>) on anything else, for the keys the code reads.
\<close>

fun js_prop :: "json \<Rightarrow> string \<Rightarrow> json option" where
  "js_prop (JObj kvs) k = map_of kvs k"
| "js_prop _ k = None"

text \<open>
  \<open>Number(v)\<close>, with \<open>None\<close> for a result that is not finite. The conversion of strings,
  arrays and objects is the engine's and is the parameter \<open>coerce\<close>.
\<close>

fun js_Number :: "(json \<Rightarrow> number option) \<Rightarrow> json option \<Rightarrow> number option" where
  "js_Number coerce None = None"
| "js_Number coerce (Some JNull) = Some 0"
| "js_Number coerce (Some (JBool b)) = Some (if b then 1 else 0)"
| "js_Number coerce (Some (JNum x)) = Some x"
| "js_Number coerce (Some v) = coerce v"

text \<open>
  \<open>String(v)\<close>; the printing of numbers, arrays and objects is the engine's and is the
  parameter \<open>render\<close>.
\<close>

fun js_String :: "(json \<Rightarrow> string) \<Rightarrow> json option \<Rightarrow> string" where
  "js_String render None = ''undefined''"
| "js_String render (Some JNull) = ''null''"
| "js_String render (Some (JBool b)) = (if b then ''true'' else ''false'')"
| "js_String render (Some (JStr s)) = s"
| "js_String render (Some v) = render v"

text \<open>\<open>v ?? d\<close>: the default replaces \<open>undefined\<close> and \<open>null\<close> only.\<close>

fun nullish_or :: "json option \<Rightarrow> json \<Rightarrow> json" where
  "nullish_or None d = d"
| "nullish_or (Some JNull) d = d"
| "nullish_or (Some v) d = v"

text \<open>
  \<open>fetchCrimeoMeterCsi\<close> through the backend proxy: the finite \<open>csi\<close> of the body is
  returned as it is.
\<close>

definition fetchCrimeoMeterCsi_backend ::
  "(json \<Rightarrow> number option) \<Rightarrow> error + HttpResponse \<Rightarrow> error + number" where
  "fetchCrimeoMeterCsi_backend coerce fetched =
     (case fetched of
        Inl e \<Rightarrow> Inl e
      | Inr res \<Rightarrow>
          if \<not> res_ok res then Inl (BackendFailed ''crime/csi'' (status res) [])
          else (case json_body res of
                  None \<Rightarrow> Inl SyntaxError
                | Some data \<Rightarrow>
                    (case js_Number coerce (if data = JNull then None else js_prop data ''csi'') of
                       None \<Rightarrow> Inl MissingCsi
                     | Some csi \<Rightarrow> Inr csi)))"

text \<open>
  \<open>fetchCrimeoMeterCsi\<close> calling CrimeoMeter directly: the finite \<open>csi\<close> is clamped,
  \<open>Math.max(0, Math.min(100, csi))\<close>.
\<close>

definition fetchCrimeoMeterCsi_direct ::
  "(json \<Rightarrow> number option) \<Rightarrow> error + HttpResponse \<Rightarrow> error + number" where
  "fetchCrimeoMeterCsi_direct coerce fetched =
     (case fetched of
        Inl e \<Rightarrow> Inl e
      | Inr res \<Rightarrow>
          if \<not> res_ok res then Inl (BackendFailed ''CrimeoMeter'' (status res) [])
          else (case json_body res of
                  None \<Rightarrow> Inl SyntaxError
                | Some data \<Rightarrow>
                    (case js_Number coerce (if data = JNull then None else js_prop data ''csi'') of
                       Some csi \<Rightarrow> Inr (max 0 (min 100 csi))
                     | None \<Rightarrow> Inl MissingCsi)))"

subsection \<open>\<open>geminiClassify\<close>\<close>

fun riskLevel_of_string :: "string \<Rightarrow> RiskLevel option" where
  "riskLevel_of_string s =
     (if s = ''SAFE'' then Some SAFE
      else if s = ''CAUTION'' then Some CAUTION
      else if s = ''UNSAFE'' then Some UNSAFE
      else None)"

fun classification_of_string :: "string \<Rightarrow> Classification option" where
  "classification_of_string s =
     (if s = ''SAFE'' then Some C_SAFE
      else if s = ''UNSAFE'' then Some C_UNSAFE
      else if s = ''SOCIAL_BALANCED'' then Some C_SOCIAL_BALANCED
      else if s = ''INFRA_MISMATCH'' then Some C_INFRA_MISMATCH
      else if s = ''UNCERTAIN'' then Some C_UNCERTAIN
      else None)"

text \<open>
  The four member schemas of \<open>outputSchema\<close>, each on the member read from the
  object (\<open>None\<close> when it is absent), with \<open>None\<close> for a validation issue:
  \<open>z.enum\<close> accepts a string of its list, \<open>z.number().min(0).max(1)\<close> a number in the
  closed range, \<open>z.string().max(240)\<close> a string of length at most 240.
\<close>

definition z_risk_level :: "json option \<Rightarrow> RiskLevel option" where
  "z_risk_level v = (case v of Some (JStr s) \<Rightarrow> riskLevel_of_string s | _ \<Rightarrow> None)"

definition z_classification :: "json option \<Rightarrow> Classification option" where
  "z_classification v = (case v of Some (JStr s) \<Rightarrow> classification_of_string s | _ \<Rightarrow> None)"

definition z_confidence :: "json option \<Rightarrow> number option" where
  "z_confidence v =
     (case v of Some (JNum x) \<Rightarrow> if 0 \<le> x \<and> x \<le> 1 then Some x else None | _ \<Rightarrow> None)"

definition z_rationale :: "json option \<Rightarrow> string option" where
  "z_rationale v =
     (case v of Some (JStr t) \<Rightarrow> if length t \<le> 240 then Some t else None | _ \<Rightarrow> None)"

text \<open>
  \<open>outputSchema.parse\<close>: \<open>z.object\<close> accepts an object only and validates its four
  members; any issue throws \<open>ZodError\<close>; members beyond the four are dropped.
\<close>

definition outputSchema_parse :: "json \<Rightarrow> error + ModelOut" where
  "outputSchema_parse j =
     (case j of
        JObj kvs \<Rightarrow>
          (case z_risk_level (map_of kvs ''risk_level'') of
             None \<Rightarrow> Inl ZodError
           | Some rl \<Rightarrow>
          (case z_classification (map_of kvs ''classification'') of
             None \<Rightarrow> Inl ZodError
           | Some cl \<Rightarrow>
          (case z_confidence (map_of kvs ''confidence'') of
             None \<Rightarrow> Inl ZodError
           | Some x \<Rightarrow>
          (case z_rationale (map_of kvs ''rationale'') of
             None \<Rightarrow> Inl ZodError
           | Some t \<Rightarrow>
               Inr \<lparr> m_risk_level = rl, m_classification = cl,
                     m_confidence = x, m_rationale = t \<rparr>))))
      | _ \<Rightarrow> Inl ZodError)"

text \<open>
  \<open>geminiClassify\<close> calling the model from the client, \<open>lib.ts\<close>:
  \<open>outputSchema.parse(JSON.parse(resp.text))\<close>. The argument is the outcome of
  \<open>generateContent\<close>: an error, or the response text as parsed by \<open>JSON.parse\<close>
  (\<open>None\<close> when it is not JSON).
\<close>

definition geminiClassify :: "error + json option \<Rightarrow> error + ModelOut" where
  "geminiClassify resp =
     (case resp of
        Inl e \<Rightarrow> Inl e
      | Inr None \<Rightarrow> Inl SyntaxError
      | Inr (Some j) \<Rightarrow> outputSchema_parse j)"

text \<open>
  \<open>geminiClassify\<close> through the backend proxy. Nothing is checked: \<open>risk_level\<close> and
  \<open>classification\<close> are whatever the body holds (\<open>None\<close> for \<open>undefined\<close>),
  \<open>confidence\<close> is \<open>Number(out.confidence ?? 0.55)\<close> (\<open>None\<close> for a result that is not
  finite) and \<open>rationale\<close> is \<open>String(out.rationale ?? "").slice(0, 240)\<close>.
\<close>

record RawModelOut =
  raw_risk_level :: "json option"
  raw_classification :: "json option"
  raw_confidence :: "number option"
  raw_rationale :: string

definition geminiClassify_backend ::
  "(json \<Rightarrow> number option) \<Rightarrow> (json \<Rightarrow> string) \<Rightarrow> error + HttpResponse \<Rightarrow> error + RawModelOut" where
  "geminiClassify_backend coerce render fetched =
     (case fetched of
        Inl e \<Rightarrow> Inl e
      | Inr res \<Rightarrow>
          if \<not> res_ok res
          then Inl (BackendFailed ''gemini/classify'' (status res) (take 200 (text_body res)))
          else (case json_body res of
                  None \<Rightarrow> Inl SyntaxError
                | Some JNull \<Rightarrow> Inl TypeError
                | Some out \<Rightarrow>
                    Inr \<lparr> raw_risk_level = js_prop out ''risk_level'',
                          raw_classification = js_prop out ''classification'',
                          raw_confidence =
                            js_Number coerce (Some (nullish_or (js_prop out ''confidence'') (JNum 0.55))),
                          raw_rationale =
                            take 240 (js_String render
                              (Some (nullish_or (js_prop out ''rationale'') (JStr [])))) \<rparr>))"

text \<open>
  The output schema in the specification's words: \<open>risk_level\<close> and \<open>classification\<close>
  are members of their enumerations, \<open>confidence\<close> is a number in \<open>[0, 1]\<close>, \<open>rationale\<close>
  is a text of at most 240 characters.
\<close>

definition conforms_schema :: "json \<Rightarrow> bool" where
  "conforms_schema j =
     (\<exists>kvs r c x t.
        j = JObj kvs \<and>
        map_of kvs ''risk_level'' = Some (JStr r) \<and> r \<in> {''SAFE'', ''CAUTION'', ''UNSAFE''} \<and>
        map_of kvs ''classification'' = Some (JStr c) \<and>
        c \<in> {''SAFE'', ''UNSAFE'', ''SOCIAL_BALANCED'', ''INFRA_MISMATCH'', ''UNCERTAIN''} \<and>
        map_of kvs ''confidence'' = Some (JNum x) \<and> 0 \<le> x \<and> x \<le> 1 \<and>
        map_of kvs ''rationale'' = Some (JStr t) \<and> length t \<le> 240)"

subsection \<open>Notions of the specification\<close>

text \<open>The clamp into \<open>[0, 100]\<close>, in the specification's words.\<close>

definition clamp100 :: "real \<Rightarrow> real" where
  "clamp100 x = (if x < 0 then 0 else if 100 < x then 100 else x)"

text \<open>
  The survivors of the filter in sorted order, before \<open>slice(0, 5)\<close>: the array \<open>kept\<close>
  after \<open>kept.sort\<close>.
\<close>

definition sortedSurvivors :: "PlaceCandidate list \<Rightarrow> PlaceCandidate list" where
  "sortedSurvivors scored = array_sort compareAlternatives (filter keptAtTime scored)"

text \<open>
  The scoring of one candidate whose crime baseline is \<open>csiAt\<close> of its location, and the
  scored shortlist: the first 10 candidates, scored.
\<close>

definition scoreWith :: "(LatLng \<Rightarrow> number) \<Rightarrow> number \<Rightarrow> PlaceCandidate \<Rightarrow> PlaceCandidate" where
  "scoreWith csiAt lighting c =
     c\<lparr> c_vibe_score := Some (vibeScore (csiAt (location c)) lighting),
        c_risk_level := Some (riskLevelFromVibe (vibeScore (csiAt (location c)) lighting)) \<rparr>"

definition scoredShortlist ::
  "(LatLng \<Rightarrow> number) \<Rightarrow> number \<Rightarrow> PlaceCandidate list \<Rightarrow> PlaceCandidate list" where
  "scoredShortlist csiAt radiance candidates =
     map (scoreWith csiAt (lightingScoreFromRadiance radiance)) (take 10 candidates)"

subsection \<open>Concrete inputs\<close>

text \<open>A destination as \<open>placeTextSearch\<close> builds it.\<close>

definition place :: "string \<Rightarrow> number \<Rightarrow> number \<Rightarrow> PlaceCandidate" where
  "place n la lo =
     \<lparr> open_at_time = None, hours_known = None, name = n, address = None,
       location = \<lparr> lat = la, lng = lo \<rparr>, placeId = None,
       c_vibe_score = None, c_risk_level = None \<rparr>"

text \<open>A model answer whose \<open>risk_level\<close> is \<open>UNSAFE\<close>, and the result of \<open>assess\<close> for \<open>csi = 10\<close>, radiance 15.\<close>

definition model_says_unsafe :: ModelOut where
  "model_says_unsafe =
     \<lparr> m_risk_level = UNSAFE, m_classification = C_SAFE, m_confidence = 0.9,
       m_rationale = ''ok'' \<rparr>"

definition result_csi10_rad15 :: GlowPathResult where
  "result_csi10_rad15 =
     \<lparr> vibe_score = 89, risk_level = SAFE, classification = C_SAFE, social_warmth = 87,
       lighting_score = 85, crime_baseline = 10, confidence = 0.9,
       safe_haven_nearby = False, rationale = ''ok'' \<rparr>"

text \<open>
  A candidate as \<open>nearbyCandidates\<close> builds it, not yet scored, and a discovery that
  returns four of them.
\<close>

definition venue :: "string \<Rightarrow> bool option \<Rightarrow> PlaceCandidate" where
  "venue n opn =
     \<lparr> open_at_time = opn, hours_known = Some (opn \<noteq> None), name = n, address = None,
       location = \<lparr> lat = 0, lng = 0 \<rparr>, placeId = None,
       c_vibe_score = None, c_risk_level = None \<rparr>"

definition nearby_four :: "LatLng \<Rightarrow> error + PlaceCandidate list" where
  "nearby_four center =
     Inr [venue ''A'' (Some False), venue ''B'' (Some True), venue ''C'' None,
          venue ''D'' (Some True)]"

text \<open>Upstream answers: a crime baseline, a classification, and a classification outside the schema.\<close>

definition csi_response :: "number \<Rightarrow> HttpResponse" where
  "csi_response x = \<lparr> status = 200, json_body = Some (JObj [(''csi'', JNum x)]), text_body = [] \<rparr>"

definition classify_response :: "json \<Rightarrow> HttpResponse" where
  "classify_response j = \<lparr> status = 200, json_body = Some j, text_body = [] \<rparr>"

definition invalid_classification_body :: json where
  "invalid_classification_body =
     JObj [(''risk_level'', JStr ''MAYBE''), (''classification'', JStr ''SAFE''),
           (''confidence'', JNum 1.5), (''rationale'', JStr ''CSI high, lighting low'')]"

section \<open>Verified properties\<close>

subsection \<open>Binary64 rounding\<close>

lemma binade_range: "- 1022 \<le> k \<Longrightarrow> - 1022 \<le> binade a k \<and> binade a k \<le> k"
proof (induction a k rule: binade.induct)
  case (1 a k)
  show ?case
  proof (cases "k \<le> - 1022 \<or> 2 powi k \<le> a")
    case True
    with "1.prems" show ?thesis by (simp add: binade.simps[of a k])
  next
    case False
    with "1.IH" have "- 1022 \<le> binade a (k - 1) \<and> binade a (k - 1) \<le> k - 1" by simp
    with False show ?thesis by (simp add: binade.simps[of a k])
  qed
qed

lemma binade_lower: "binade a k \<le> - 1022 \<or> 2 powi (binade a k) \<le> a"
proof (induction a k rule: binade.induct)
  case (1 a k)
  show ?case
  proof (cases "k \<le> - 1022 \<or> 2 powi k \<le> a")
    case True
    then show ?thesis by (simp add: binade.simps[of a k])
  next
    case False
    with "1.IH" show ?thesis by (simp add: binade.simps[of a k])
  qed
qed

lemma binade_upper: "- 1022 \<le> k \<Longrightarrow> binade a k < k \<Longrightarrow> a < 2 powi (binade a k + 1)"
proof (induction a k rule: binade.induct)
  case (1 a k)
  show ?case
  proof (cases "k \<le> - 1022 \<or> 2 powi k \<le> a")
    case True
    with "1.prems" show ?thesis by (simp add: binade.simps[of a k])
  next
    case False
    then have eq: "binade a k = binade a (k - 1)" by (simp add: binade.simps[of a k])
    from False have k: "- 1022 \<le> k - 1" and a: "a < 2 powi k" by auto
    from binade_range[OF k, of a] have "binade a (k - 1) < k - 1 \<or> binade a (k - 1) = k - 1"
      by linarith
    then show ?thesis
    proof
      assume "binade a (k - 1) < k - 1"
      with "1.IH"[OF False k] show ?thesis unfolding eq by simp
    next
      assume "binade a (k - 1) = k - 1"
      with a show ?thesis unfolding eq by simp
    qed
  qed
qed

lemma binade_eq:
  assumes "- 1022 \<le> e" "e \<le> k" "e = - 1022 \<or> 2 powi e \<le> a" "a < 2 powi (e + 1)"
  shows "binade a k = e"
proof -
  have k: "- 1022 \<le> k" using assms(1,2) by simp
  let ?b = "binade a k"
  have r: "- 1022 \<le> ?b" "?b \<le> k" using binade_range[OF k, of a] by simp_all
  have "\<not> ?b < e"
  proof
    assume l: "?b < e"
    then have "?b < k" using assms(2) by simp
    from binade_upper[OF k this] have "a < 2 powi (?b + 1)" .
    moreover have "(2::real) powi (?b + 1) \<le> 2 powi e"
      using l by (intro power_int_increasing) simp_all
    moreover have "2 powi e \<le> a" using assms(3) l r(1) by auto
    ultimately show False by simp
  qed
  moreover have "\<not> e < ?b"
  proof
    assume g: "e < ?b"
    then have "2 powi ?b \<le> a" using binade_lower[of a k] assms(1) by auto
    moreover have "(2::real) powi (e + 1) \<le> 2 powi ?b"
      using g by (intro power_int_increasing) simp_all
    ultimately show False using assms(4) by simp
  qed
  ultimately show ?thesis by simp
qed

lemma rne_le: "x \<le> of_int B \<Longrightarrow> rne x \<le> B"
proof -
  assume x: "x \<le> of_int B"
  have f: "\<lfloor>x\<rfloor> \<le> B" using x by (simp add: floor_le_iff)
  have "\<lfloor>x\<rfloor> + 1 \<le> B" if "1 / 2 \<le> x - of_int \<lfloor>x\<rfloor>"
  proof -
    from that x have "of_int \<lfloor>x\<rfloor> < (of_int B :: real)" by linarith
    then show ?thesis by simp
  qed
  with f show ?thesis
    unfolding rne_def Let_def by (auto simp add: not_less)
qed

lemma rne_ge: "of_int B \<le> x \<Longrightarrow> B \<le> rne x"
proof -
  assume "of_int B \<le> x"
  then have "B \<le> \<lfloor>x\<rfloor>" by (simp add: le_floor_iff)
  then show ?thesis unfolding rne_def Let_def by auto
qed

lemma rne_error: "\<bar>of_int (rne x) - x\<bar> \<le> 1 / 2"
proof -
  have "of_int \<lfloor>x\<rfloor> \<le> x" "x < of_int \<lfloor>x\<rfloor> + 1" by linarith+
  then show ?thesis unfolding rne_def Let_def by (auto simp add: not_less) 
qed

lemma fl64_pos:
  "0 < x \<Longrightarrow>
   fl64 x = of_int (rne (x / 2 powi (binade x 1023 - 52))) * 2 powi (binade x 1023 - 52)"
  by (simp add: fl64_def Let_def)

lemma fl64_nonneg: "0 \<le> x \<Longrightarrow> 0 \<le> fl64 x"
proof (cases "x = 0")
  case True
  then show ?thesis by (simp add: fl64_def)
next
  case False
  assume "0 \<le> x"
  with False have x: "0 < x" by simp
  have "0 \<le> x / 2 powi (binade x 1023 - 52)" using x by simp
  then have "0 \<le> rne (x / 2 powi (binade x 1023 - 52))"
    using rne_ge[of 0] by simp
  then show ?thesis unfolding fl64_pos[OF x] by simp
qed

lemma binade_below:
  assumes "0 < x" "x < 2 powi n" "- 1022 < n" "n \<le> 1024"
  shows "binade x 1023 < n"
proof -
  from binade_lower[of x 1023] show ?thesis
  proof
    assume "binade x 1023 \<le> - 1022"
    with assms(3) show ?thesis by simp
  next
    assume "2 powi binade x 1023 \<le> x"
    with assms(2) have l: "(2::real) powi binade x 1023 < 2 powi n" by simp
    show ?thesis
    proof (rule ccontr)
      assume "\<not> binade x 1023 < n"
      then have "(2::real) powi n \<le> 2 powi binade x 1023"
        by (intro power_int_increasing) simp_all
      with l show False by simp
    qed
  qed
qed

text \<open>
  Rounding does not cross a value \<open>b\<close> with \<open>2 * b\<close> an integer, below \<open>2 powi 52\<close>: such a
  value lies on the grid of every binade there.
\<close>

lemma fl64_half_int_bounds:
  assumes x: "0 < x" "x < 2 powi 52" and b: "2 * b \<in> \<int>"
  shows "(x \<le> b \<longrightarrow> fl64 x \<le> b) \<and> (b \<le> x \<longrightarrow> b \<le> fl64 x)"
proof -
  let ?e = "binade x 1023"
  let ?u = "(2::real) powi (?e - 52)"
  have e: "?e < 52" using x by (intro binade_below) simp_all
  have u: "0 < ?u" by simp
  have "1 / ?u = 2 powi (52 - ?e)"
    by (simp add: power_int_diff)
  also have "\<dots> = 2 * 2 powi (51 - ?e)"
    using power_int_add_1'[of "2::real" "51 - ?e"] by (simp add: algebra_simps)
  also have "\<dots> = 2 * 2 ^ nat (51 - ?e)"
    using e by (simp add: power_int_def)
  finally have inv: "1 / ?u = 2 * 2 ^ nat (51 - ?e)" .
  from b obtain m :: int where m: "2 * b = of_int m" by (auto elim: Ints_cases)
  have "b / ?u = b * (1 / ?u)" by simp
  also have "\<dots> = of_int (m * 2 ^ nat (51 - ?e))"
    unfolding inv using m by simp
  finally have B: "b / ?u = of_int (m * 2 ^ nat (51 - ?e))" .
  let ?B = "m * 2 ^ nat (51 - ?e)"
  have bu: "b = of_int ?B * ?u" using B u by (simp add: field_simps)
  have 1: "fl64 x \<le> b" if "x \<le> b"
  proof -
    from that u have "x / ?u \<le> b / ?u" by (simp add: divide_right_mono)
    then have "rne (x / ?u) \<le> ?B" unfolding B by (rule rne_le)
    then have "(of_int (rne (x / ?u)) :: real) \<le> of_int ?B" by (simp only: of_int_le_iff)
    then have "of_int (rne (x / ?u)) * ?u \<le> of_int ?B * ?u"
      by (rule mult_right_mono) simp
    then show ?thesis unfolding fl64_pos[OF x(1)] using bu by simp
  qed
  have 2: "b \<le> fl64 x" if "b \<le> x"
  proof -
    from that u have "b / ?u \<le> x / ?u" by (simp add: divide_right_mono)
    then have "?B \<le> rne (x / ?u)" unfolding B by (rule rne_ge)
    then have "(of_int ?B :: real) \<le> of_int (rne (x / ?u))" by (simp only: of_int_le_iff)
    then have "of_int ?B * ?u \<le> of_int (rne (x / ?u)) * ?u"
      by (rule mult_right_mono) simp
    then show ?thesis unfolding fl64_pos[OF x(1)] using bu by simp
  qed
  from 1 2 show ?thesis by blast
qed

lemma fl64_le:
  assumes "0 \<le> x" "x \<le> b" "b < 2 powi 52" "2 * b \<in> \<int>"
  shows "fl64 x \<le> b"
proof (cases "x = 0")
  case True
  with assms show ?thesis by (simp add: fl64_def)
next
  case False
  with assms have "0 < x" "x < 2 powi 52" by simp_all
  from fl64_half_int_bounds[OF this assms(4)] assms(2) show ?thesis by simp
qed

lemma fl64_ge:
  assumes "0 < b" "b \<le> x" "x < 2 powi 52" "2 * b \<in> \<int>"
  shows "b \<le> fl64 x"
proof -
  from assms have "0 < x" by simp
  from fl64_half_int_bounds[OF this assms(3,4)] assms(2) show ?thesis by simp
qed

lemma fl64_exact:
  assumes "0 \<le> x" "x < 2 powi 52" "2 * x \<in> \<int>"
  shows "fl64 x = x"
proof (cases "x = 0")
  case True
  then show ?thesis by (simp add: fl64_def)
next
  case False
  with assms have "0 < x" by simp
  from fl64_half_int_bounds[OF this assms(2,3)] show ?thesis by simp
qed

lemma fl64_error:
  assumes "0 \<le> x" "x < 128"
  shows "\<bar>fl64 x - x\<bar> \<le> 1 / 2 ^ 47"
proof (cases "x = 0")
  case True
  then show ?thesis by (simp add: fl64_def)
next
  case False
  with assms have x: "0 < x" by simp
  let ?e = "binade x 1023"
  let ?u = "(2::real) powi (?e - 52)"
  have "?e < 7" using x assms(2) by (intro binade_below) simp_all
  then have "?u \<le> 2 powi (- 46)" by (intro power_int_increasing) simp_all
  then have u46: "?u \<le> 1 / 2 ^ 46" by (simp add: power_int_minus field_simps)
  have u: "0 < ?u" by simp
  have "of_int (rne (x / ?u)) * ?u - x = (of_int (rne (x / ?u)) - x / ?u) * ?u"
    using u by (simp add: field_simps)
  then have "\<bar>of_int (rne (x / ?u)) * ?u - x\<bar> = \<bar>of_int (rne (x / ?u)) - x / ?u\<bar> * \<bar>?u\<bar>"
    by (simp only: abs_mult)
  then have "\<bar>fl64 x - x\<bar> = \<bar>of_int (rne (x / ?u)) - x / ?u\<bar> * ?u"
    unfolding fl64_pos[OF x] using u by simp
  also have "\<dots> \<le> 1 / 2 * ?u"
    using rne_error[of "x / ?u"] u by (intro mult_right_mono) simp_all
  also have "\<dots> \<le> 1 / 2 * (1 / 2 ^ 46)" using u46 by simp
  finally show ?thesis by simp
qed

text \<open>Evaluation of \<open>fl64\<close> once the binade is known.\<close>

lemma fl64_eval:
  assumes "0 < x" "- 1022 \<le> e" "e \<le> 1023" "2 powi e \<le> x" "x < 2 powi (e + 1)"
  shows "fl64 x = of_int (rne (x / 2 powi (e - 52))) * 2 powi (e - 52)"
proof -
  have "binade x 1023 = e" using assms by (intro binade_eq) simp_all
  with fl64_pos[OF assms(1)] show ?thesis by simp
qed

text \<open>The two literals.\<close>

lemma fl64_0_7: "fl64 0.7 = 6305039478318694 / 2 ^ 53"
  by (simp add: fl64_eval[where e = "- 1"] rne_def)


lemma fl64_0 [simp]: "fl64 0 = 0"
  by (simp add: fl64_def)

lemma binade_from:
  assumes "0 < x" "x < 2 powi (k + 1)" "- 1022 \<le> k" "k \<le> 1023"
  shows "binade x 1023 = binade x k"
proof -
  let ?e = "binade x k"
  have r: "- 1022 \<le> ?e" "?e \<le> k" using binade_range[OF assms(3), of x] by simp_all
  have l: "?e = - 1022 \<or> 2 powi ?e \<le> x" using binade_lower[of x k] r(1) by auto
  have u: "x < 2 powi (?e + 1)"
  proof (cases "?e < k")
    case True
    then show ?thesis by (rule binade_upper[OF assms(3)])
  next
    case False
    with r(2) have "?e = k" by simp
    with assms(2) show ?thesis by simp
  qed
  from r(2) assms(4) have "?e \<le> 1023" by simp
  with r(1) l u show ?thesis by (intro binade_eq) simp_all
qed

text \<open>Evaluation of \<open>fl64\<close> below 128: the search for the binade starts at exponent 6.\<close>

lemma fl64_small:
  assumes "0 < x" "x < 128"
  shows "fl64 x = of_int (rne (x / 2 powi (binade x 6 - 52))) * 2 powi (binade x 6 - 52)"
proof -
  have "binade x 1023 = binade x 6" using assms by (intro binade_from) simp_all
  with fl64_pos[OF assms(1)] show ?thesis by simp
qed

text \<open>The facts that evaluate the arithmetic on numerals.\<close>

lemmas eval64 = add64_def mul64_def sub64_def fl64_small binade.simps rne_def Let_def round_def

subsection \<open>Signal normalizer\<close>

lemma lightingScore_values: "lightingScoreFromRadiance r \<in> {15, 35, 65, 85}"
  by (simp add: lightingScoreFromRadiance_def Let_def)

lemma lightingScore_mono:
  "r \<le> s \<Longrightarrow> lightingScoreFromRadiance r \<le> lightingScoreFromRadiance s"
  by (simp add: lightingScoreFromRadiance_def Let_def max_def)

lemma lightingScore_negative: "r < 0 \<Longrightarrow> lightingScoreFromRadiance r = lightingScoreFromRadiance 0"
  by (simp add: lightingScoreFromRadiance_def Let_def max_def)

text \<open>
  Claim C6. \<open>lightingScoreFromRadiance\<close> is total with no error case (its model is a
  plain function): a negative input gives what input 0 gives, every result is one of
  15, 35, 65, 85, the buckets are \<open>[0, 0.5)\<close>, \<open>[0.5, 2)\<close>, \<open>[2, 10)\<close>, \<open>[10, \<infinity>)\<close>, closed
  on the left and open on the right, and the function is non-decreasing.
\<close>

theorem lightingScoreFromRadiance_buckets:
  "(r < 0 \<longrightarrow> lightingScoreFromRadiance r = lightingScoreFromRadiance 0)
   \<and> lightingScoreFromRadiance x \<in> {15, 35, 65, 85}
   \<and> (0 \<le> a \<and> a < 0.5 \<longrightarrow> lightingScoreFromRadiance a = 15)
   \<and> (0.5 \<le> b \<and> b < 2.0 \<longrightarrow> lightingScoreFromRadiance b = 35)
   \<and> (2.0 \<le> c \<and> c < 10.0 \<longrightarrow> lightingScoreFromRadiance c = 65)
   \<and> (10.0 \<le> d \<longrightarrow> lightingScoreFromRadiance d = 85)
   \<and> (s \<le> t \<longrightarrow> lightingScoreFromRadiance s \<le> lightingScoreFromRadiance t)"
proof (intro conjI impI)
  show "lightingScoreFromRadiance r = lightingScoreFromRadiance 0" if "r < 0"
    using that by (rule lightingScore_negative)
  show "lightingScoreFromRadiance x \<in> {15, 35, 65, 85}"
    by (rule lightingScore_values)
  show "lightingScoreFromRadiance a = 15" if "0 \<le> a \<and> a < 0.5"
    using that by (simp add: lightingScoreFromRadiance_def Let_def max_def)
  show "lightingScoreFromRadiance b = 35" if "0.5 \<le> b \<and> b < 2.0"
    using that by (simp add: lightingScoreFromRadiance_def Let_def max_def)
  show "lightingScoreFromRadiance c = 65" if "2.0 \<le> c \<and> c < 10.0"
    using that by (simp add: lightingScoreFromRadiance_def Let_def max_def)
  show "lightingScoreFromRadiance d = 85" if "10.0 \<le> d"
    using that by (simp add: lightingScoreFromRadiance_def Let_def max_def)
  show "lightingScoreFromRadiance s \<le> lightingScoreFromRadiance t" if "s \<le> t"
    using that by (rule lightingScore_mono)
qed

theorem lightingScoreFromRadiance_buckets_witness:
  "((-3::real) < 0 \<and> lightingScoreFromRadiance (-3) = lightingScoreFromRadiance 0)
   \<and> ((0::real) \<le> 0.49 \<and> (0.49::real) < 0.5 \<and> lightingScoreFromRadiance 0.49 = 15)
   \<and> ((0.5::real) \<le> 0.5 \<and> (0.5::real) < 2.0 \<and> lightingScoreFromRadiance 0.5 = 35)
   \<and> ((2.0::real) \<le> 2 \<and> (2::real) < 10.0 \<and> lightingScoreFromRadiance 2 = 65)
   \<and> ((10.0::real) \<le> 10 \<and> lightingScoreFromRadiance 10 = 85)
   \<and> ((0.1::real) \<le> 6.3 \<and> lightingScoreFromRadiance 0.1 \<le> lightingScoreFromRadiance 6.3)"
  using lightingScoreFromRadiance_buckets [of "-3" 0 "0.49" "0.5" 2 10 "0.1" "6.3"]
  by simp

subsection \<open>Score calculator\<close>

lemma clamp100_eq: "max 0 (min 100 x) = clamp100 x"
  by (simp add: clamp100_def max_def min_def)

lemma clamp100_range: "0 \<le> clamp100 x \<and> clamp100 x \<le> 100"
  by (simp add: clamp100_def)


lemma round_range_0_100:
  fixes x :: real
  assumes "0 \<le> x" "x \<le> 100"
  shows "0 \<le> round x \<and> round x \<le> 100"
proof -
  have "round (0::real) \<le> round x" using assms(1) by (rule round_mono)
  moreover have "round x \<le> round (100::real)" using assms(2) by (rule round_mono)
  ultimately show ?thesis by simp
qed

text \<open>\<open>100 - csi\<close> for a clamped \<open>csi\<close>.\<close>

lemma sub64_100:
  assumes "0 \<le> c" "c \<le> 100"
  shows "0 \<le> sub64 100 c \<and> sub64 100 c \<le> 100 \<and> \<bar>sub64 100 c - (100 - c)\<bar> \<le> 1 / 2 ^ 47"
proof -
  have x: "0 \<le> 100 - c" "100 - c \<le> 100" "100 - c < 128" using assms by simp_all
  have "fl64 (100 - c) \<le> 100" using x(1,2) by (rule fl64_le) simp_all
  with fl64_nonneg[OF x(1)] fl64_error[OF x(1,3)] show ?thesis
    by (simp add: sub64_def)
qed

text \<open>The two products: bounds, and distance from the exact product.\<close>

lemma mul64_0_7:
  assumes "0 \<le> a" "a \<le> 100"
  shows "0 \<le> mul64 (fl64 0.7) a \<and> mul64 (fl64 0.7) a \<le> 70
         \<and> \<bar>mul64 (fl64 0.7) a - 0.7 * a\<bar> \<le> 2 / 2 ^ 47"
proof -
  let ?x = "6305039478318694 / 2 ^ 53 * a"
  have x: "0 \<le> ?x" "?x \<le> 70" "?x < 128" using assms by simp_all
  have d: "\<bar>?x - 0.7 * a\<bar> \<le> 1 / 2 ^ 47" using assms by simp
  have "fl64 ?x \<le> 70" using x(1,2) by (rule fl64_le) simp_all
  moreover have "\<bar>fl64 ?x - 0.7 * a\<bar> \<le> 2 / 2 ^ 47"
    using fl64_error[OF x(1,3)] d by linarith
  ultimately show ?thesis
    using fl64_nonneg[OF x(1)] by (simp add: mul64_def fl64_0_7)
qed



lemma vibeScore_eq:
  "vibeScore c l =
     of_int (round (add64 (mul64 (fl64 0.7) (sub64 100 (clamp100 c))) (mul64 (fl64 0.3) (clamp100 l))))"
  by (simp add: vibeScore_def Let_def clamp100_eq)


lemma of_int_round_range:
  fixes x :: real
  assumes "0 \<le> x" "x \<le> 100"
  shows "0 \<le> (of_int (round x) :: real) \<and> (of_int (round x) :: real) \<le> 100"
  using round_range_0_100[OF assms]
  by (metis of_int_0_le_iff of_int_le_iff of_int_numeral)







subsection \<open>Risk classifier\<close>

lemma riskLevelFromVibe_mono:
  "v \<le> w \<Longrightarrow> riskRank (riskLevelFromVibe v) \<le> riskRank (riskLevelFromVibe w)"
  by (simp add: riskLevelFromVibe_def)

text \<open>
  Claim C8. \<open>riskLevelFromVibe\<close> is total (a plain function) and non-decreasing over the
  integers for the order \<open>UNSAFE < CAUTION < SAFE\<close>; the bands are \<open>v < 40\<close>,
  \<open>40 \<le> v < 65\<close> and \<open>65 \<le> v\<close>, so 39 is \<open>UNSAFE\<close>, 40 and 64 are \<open>CAUTION\<close> and 65 is
  \<open>SAFE\<close>.
\<close>

theorem riskLevelFromVibe_monotone_bands:
  fixes i j k :: int
  shows
  "(i \<le> j \<longrightarrow> riskRank (riskLevelFromVibe (of_int i)) \<le> riskRank (riskLevelFromVibe (of_int j)))
   \<and> (riskLevelFromVibe (of_int k) = SAFE \<longleftrightarrow> 65 \<le> k)
   \<and> (riskLevelFromVibe (of_int k) = CAUTION \<longleftrightarrow> 40 \<le> k \<and> k < 65)
   \<and> (riskLevelFromVibe (of_int k) = UNSAFE \<longleftrightarrow> k < 40)
   \<and> riskLevelFromVibe 39 = UNSAFE \<and> riskLevelFromVibe 40 = CAUTION
   \<and> riskLevelFromVibe 64 = CAUTION \<and> riskLevelFromVibe 65 = SAFE"
proof (intro conjI impI)
  show "riskRank (riskLevelFromVibe (of_int i)) \<le> riskRank (riskLevelFromVibe (of_int j))"
    if "i \<le> j"
    using that by (intro riskLevelFromVibe_mono) simp
  have k: "(65 \<le> real_of_int k) = (65 \<le> k)" "(40 \<le> real_of_int k) = (40 \<le> k)"
    by linarith+
  show "riskLevelFromVibe (of_int k) = SAFE \<longleftrightarrow> 65 \<le> k"
    by (simp add: riskLevelFromVibe_def k)
  show "riskLevelFromVibe (of_int k) = CAUTION \<longleftrightarrow> 40 \<le> k \<and> k < 65"
    by (auto simp add: riskLevelFromVibe_def k)
  show "riskLevelFromVibe (of_int k) = UNSAFE \<longleftrightarrow> k < 40"
    by (auto simp add: riskLevelFromVibe_def k)
qed (simp_all add: riskLevelFromVibe_def)

theorem riskLevelFromVibe_monotone_bands_witness:
  "(39::int) \<le> 65
   \<and> riskRank (riskLevelFromVibe (of_int (39::int))) \<le> riskRank (riskLevelFromVibe (of_int (65::int)))
   \<and> riskLevelFromVibe (of_int (39::int)) = UNSAFE
   \<and> riskLevelFromVibe (of_int (65::int)) = SAFE"
  using riskLevelFromVibe_monotone_bands [of 39 65 39] riskLevelFromVibe_monotone_bands [of 39 65 65]
  by simp

subsection \<open>Result reconciler\<close>

text \<open>
  Claim C9. \<open>assembleFinalResult\<close> hands \<open>classification\<close>, \<open>confidence\<close> and \<open>rationale\<close>
  through from \<open>modelOut\<close>, copies \<open>vibe_score\<close>, \<open>lighting_score\<close>, \<open>crime_baseline\<close> and
  \<open>social_warmth\<close> from its other parameters and sets \<open>safe_haven_nearby\<close> to false. It
  has no error path: its model is a plain function, not one into a sum with errors.
\<close>

theorem assembleFinalResult_frame:
  "classification (assembleFinalResult v l c w m) = m_classification m
   \<and> confidence (assembleFinalResult v l c w m) = m_confidence m
   \<and> rationale (assembleFinalResult v l c w m) = m_rationale m
   \<and> vibe_score (assembleFinalResult v l c w m) = v
   \<and> lighting_score (assembleFinalResult v l c w m) = l
   \<and> crime_baseline (assembleFinalResult v l c w m) = c
   \<and> social_warmth (assembleFinalResult v l c w m) = w
   \<and> safe_haven_nearby (assembleFinalResult v l c w m) = False"
  by (simp add: assembleFinalResult_def)

lemma assembleFinalResult_risk_level:
  "risk_level (assembleFinalResult v l c w m) = m_risk_level m"
  by (simp add: assembleFinalResult_def)

lemma assess_Inr:
  assumes "assess placeResult fetchCsi radianceInput classify = Inr result"
  shows "\<exists>dest csi radiance modelOut.
           placeResult = Inr (Some dest) \<and> fetchCsi (location dest) = Inr csi \<and>
           radianceInput = Some radiance \<and>
           classify \<lparr> a_csi = csi, a_radiance = radiance,
                      a_vibe_score = vibeScore csi (lightingScoreFromRadiance radiance),
                      a_lighting_score = lightingScoreFromRadiance radiance \<rparr> = Inr modelOut \<and>
           result = assembleFinalResult (vibeScore csi (lightingScoreFromRadiance radiance))
                      (lightingScoreFromRadiance radiance) (of_int (round csi))
                      (socialWarmthProxy csi (lightingScoreFromRadiance radiance))
                      (modelOut\<lparr> m_risk_level :=
                         riskLevelFromVibe (vibeScore csi (lightingScoreFromRadiance radiance)) \<rparr>)"
  using assms unfolding assess_def Let_def
  by (auto split: sum.splits option.splits)

lemma assess_risk_level:
  assumes "assess placeResult fetchCsi radianceInput classify = Inr result"
  shows "risk_level result = riskLevelFromVibe (vibe_score result)"
  using assess_Inr[OF assms] by (auto simp add: assembleFinalResult_def)

text \<open>
  Claim C1, the statement that fails: \<open>assembleFinalResult\<close> itself recomputes nothing.
  With \<open>vibe_score = 90\<close> and a \<open>modelOut\<close> whose \<open>risk_level\<close> is \<open>UNSAFE\<close> the result's
  \<open>risk_level\<close> is \<open>UNSAFE\<close>, while \<open>riskLevelFromVibe 90\<close> is \<open>SAFE\<close>.
\<close>

theorem assembleFinalResult_risk_level_counterexample:
  "risk_level (assembleFinalResult 90 85 10 80
      \<lparr> m_risk_level = UNSAFE, m_classification = C_SAFE, m_confidence = 0.9,
        m_rationale = ''ok'' \<rparr>)
   \<noteq> riskLevelFromVibe (vibe_score (assembleFinalResult 90 85 10 80
      \<lparr> m_risk_level = UNSAFE, m_classification = C_SAFE, m_confidence = 0.9,
        m_rationale = ''ok'' \<rparr>))"
  by (simp add: assembleFinalResult_def riskLevelFromVibe_def)

text \<open>
  Claim C1, amended. The override is the caller's: \<open>assess\<close> (both variants) replaces
  \<open>modelOut.risk_level\<close> by \<open>riskLevelFromVibe vibe\<close> before it calls
  \<open>assembleFinalResult\<close>, so every result that \<open>assess\<close> produces has
  \<open>risk_level = riskLevelFromVibe vibe_score\<close>, whatever the model answered;
  \<open>assembleFinalResult\<close> forwards the \<open>risk_level\<close> of the \<open>modelOut\<close> it is given.
\<close>

theorem assess_risk_level_deterministic:
  "(assess placeResult fetchCsi radianceInput classify = Inr result \<longrightarrow>
      risk_level result = riskLevelFromVibe (vibe_score result))
   \<and> (assess_keyed canRun placeResult' fetchCsi' radianceInput' classify' = Inr result' \<longrightarrow>
      risk_level result' = riskLevelFromVibe (vibe_score result'))
   \<and> risk_level (assembleFinalResult v l c w m) = m_risk_level m"
proof (intro conjI impI)
  show "risk_level result = riskLevelFromVibe (vibe_score result)"
    if "assess placeResult fetchCsi radianceInput classify = Inr result"
    using that by (rule assess_risk_level)
  show "risk_level result' = riskLevelFromVibe (vibe_score result')"
    if "assess_keyed canRun placeResult' fetchCsi' radianceInput' classify' = Inr result'"
  proof -
    from that have "assess placeResult' fetchCsi' radianceInput' classify' = Inr result'"
      by (simp add: assess_keyed_def split: if_splits)
    then show ?thesis by (rule assess_risk_level)
  qed
  show "risk_level (assembleFinalResult v l c w m) = m_risk_level m"
    by (rule assembleFinalResult_risk_level)
qed

lemma assess_csi10_rad15:
  "assess (Inr (Some (place ''Soho'' 51.5 0))) (\<lambda>_. Inr 10) (Some 15)
     (\<lambda>_. Inr model_says_unsafe) = Inr result_csi10_rad15"
  by (simp add: assess_def place_def lightingScoreFromRadiance_def vibeScore_def
      socialWarmthProxy_def riskLevelFromVibe_def assembleFinalResult_def eval64
      model_says_unsafe_def result_csi10_rad15_def)

theorem assess_risk_level_deterministic_witness:
  "assess (Inr (Some (place ''Soho'' 51.5 0))) (\<lambda>_. Inr 10) (Some 15)
     (\<lambda>_. Inr model_says_unsafe) = Inr result_csi10_rad15
   \<and> assess_keyed True (Inr (Some (place ''Soho'' 51.5 0))) (\<lambda>_. Inr 10) (Some 15)
     (\<lambda>_. Inr model_says_unsafe) = Inr result_csi10_rad15
   \<and> m_risk_level model_says_unsafe = UNSAFE
   \<and> risk_level result_csi10_rad15 = riskLevelFromVibe (vibe_score result_csi10_rad15)
   \<and> risk_level result_csi10_rad15 = SAFE"
  using assess_risk_level_deterministic
    [of "Inr (Some (place ''Soho'' 51.5 0))" "\<lambda>_. Inr 10" "Some 15" "\<lambda>_. Inr model_says_unsafe"
        result_csi10_rad15
        True "Inr (Some (place ''Soho'' 51.5 0))" "\<lambda>_. Inr 10" "Some 15"
        "\<lambda>_. Inr model_says_unsafe" result_csi10_rad15]
    assess_csi10_rad15
  by (simp add: assess_keyed_def model_says_unsafe_def result_csi10_rad15_def)

subsection \<open>The lighting pipeline\<close>

lemma mul64_0_3_buckets:
  "mul64 (fl64 0.3) 15 = 4.5" "mul64 (fl64 0.3) 35 = 10.5"
  "mul64 (fl64 0.3) 65 = 19.5" "mul64 (fl64 0.3) 85 = 25.5"
  by (simp_all add: eval64)

lemma vibeScore_lighting_bounds:
  "5 \<le> vibeScore csi (lightingScoreFromRadiance radiance)
   \<and> vibeScore csi (lightingScoreFromRadiance radiance) \<le> 96"
proof -
  let ?l = "lightingScoreFromRadiance radiance"
  let ?t = "sub64 100 (clamp100 csi)"
  let ?p = "mul64 (fl64 0.7) ?t" and ?q = "mul64 (fl64 0.3) ?l"
  have l: "?l = 15 \<or> ?l = 35 \<or> ?l = 65 \<or> ?l = 85"
    using lightingScore_values[of radiance] by simp
  then have cl: "clamp100 ?l = ?l" by (auto simp add: clamp100_def)
  from l have q: "4.5 \<le> ?q" "?q \<le> 25.5"
    by (auto simp add: mul64_0_3_buckets)
  have t: "0 \<le> ?t" "?t \<le> 100"
    using sub64_100[of "clamp100 csi"] clamp100_range[of csi] by simp_all
  from mul64_0_7[OF t] have p: "0 \<le> ?p" "?p \<le> 70" by simp_all
  have x: "4.5 \<le> ?p + ?q" "?p + ?q \<le> 95.5" using p q by linarith+
  have "(0::real) < 4.5" by simp
  then have lo: "4.5 \<le> fl64 (?p + ?q)"
    using x(1) by (rule fl64_ge) (use x(2) in simp_all)
  have "0 \<le> ?p + ?q" using x(1) by linarith
  then have hi: "fl64 (?p + ?q) \<le> 95.5"
    using x(2) by (rule fl64_le) simp_all
  have "round (4.5::real) \<le> round (fl64 (?p + ?q))" using lo by (rule round_mono)
  moreover have "round (fl64 (?p + ?q)) \<le> round (95.5::real)" using hi by (rule round_mono)
  moreover have "round (4.5::real) = 5" "round (95.5::real) = 96"
    by (simp_all add: round_def)
  ultimately have "5 \<le> round (add64 ?p ?q) \<and> round (add64 ?p ?q) \<le> 96"
    by (simp add: add64_def)
  then show ?thesis
    unfolding vibeScore_eq cl by (metis of_int_le_iff of_int_numeral)
qed

theorem vibeScore_pipeline_range:
  assumes "0 \<le> csi" and "csi \<le> 100"
  shows "5 \<le> vibeScore csi (lightingScoreFromRadiance radiance)
   \<and> vibeScore csi (lightingScoreFromRadiance radiance) \<le> 96
   \<and> lightingScoreFromRadiance 0 = 15 \<and> vibeScore 100 (lightingScoreFromRadiance 0) = 5
   \<and> lightingScoreFromRadiance 10 = 85 \<and> vibeScore 0 (lightingScoreFromRadiance 10) = 96
   \<and> riskLevelFromVibe (vibeScore 100 (lightingScoreFromRadiance 0)) = UNSAFE
   \<and> riskLevelFromVibe (vibeScore 50 (lightingScoreFromRadiance 5)) = CAUTION
   \<and> riskLevelFromVibe (vibeScore 0 (lightingScoreFromRadiance 10)) = SAFE"
proof -
  have "lightingScoreFromRadiance 0 = 15" "lightingScoreFromRadiance 5 = 65"
    "lightingScoreFromRadiance 10 = 85"
    by (simp_all add: lightingScoreFromRadiance_def)
  moreover have "vibeScore 100 15 = 5" "vibeScore 50 65 = 55" "vibeScore 0 85 = 96"
    by (simp_all add: vibeScore_def eval64)
  ultimately show ?thesis
    using vibeScore_lighting_bounds[of csi radiance]
    by (simp add: riskLevelFromVibe_def)
qed

theorem vibeScore_pipeline_range_witness:
  "(0::real) \<le> 80 \<and> (80::real) \<le> 100
   \<and> 5 \<le> vibeScore 80 (lightingScoreFromRadiance 0.1)
   \<and> vibeScore 80 (lightingScoreFromRadiance 0.1) \<le> 96
   \<and> vibeScore 80 (lightingScoreFromRadiance 0.1) = 19"
proof -
  have h: "(0::real) \<le> 80" "(80::real) \<le> 100" by simp_all
  have "lightingScoreFromRadiance 0.1 = 15" by (simp add: lightingScoreFromRadiance_def)
  moreover have "vibeScore 80 15 = 19" by (simp add: vibeScore_def eval64)
  ultimately have "vibeScore 80 (lightingScoreFromRadiance 0.1) = 19" by simp
  with vibeScore_pipeline_range [OF h, of "0.1"] h show ?thesis by simp
qed

subsection \<open>Alternatives ranker\<close>

lemma compareAlternatives_le_iff:
  "compareAlternatives a b \<le> 0 \<longleftrightarrow>
     (open_at_time a = Some True \<and> open_at_time b \<noteq> Some True)
     \<or> ((open_at_time a = Some True) = (open_at_time b = Some True)
        \<and> vibeOrZero b \<le> vibeOrZero a)"
  by (auto simp add: compareAlternatives_def Let_def)

lemma compareAlternatives_total:
  "\<not> compareAlternatives a b \<le> 0 \<Longrightarrow> compareAlternatives b a \<le> 0"
  unfolding compareAlternatives_le_iff by auto

lemma compareAlternatives_trans:
  "compareAlternatives a b \<le> 0 \<Longrightarrow> compareAlternatives b c \<le> 0 \<Longrightarrow>
   compareAlternatives a c \<le> 0"
  unfolding compareAlternatives_le_iff by auto

lemma set_insertBy: "set (insertBy f x ys) = insert x (set ys)"
  by (induction ys) auto

lemma mset_insertBy: "mset (insertBy f x ys) = add_mset x (mset ys)"
  by (induction ys) auto

lemma mset_array_sort: "mset (array_sort f xs) = mset xs"
  by (induction xs) (auto simp add: mset_insertBy)

lemma length_array_sort: "length (array_sort f xs) = length xs"
  using mset_array_sort[of f xs] by (metis size_mset)

lemma set_array_sort: "set (array_sort f xs) = set xs"
  using mset_array_sort[of f xs] by (metis set_mset_mset)

lemma sorted_insertBy:
  assumes "sorted_wrt (\<lambda>a b. compareAlternatives a b \<le> 0) ys"
  shows "sorted_wrt (\<lambda>a b. compareAlternatives a b \<le> 0) (insertBy compareAlternatives x ys)"
  using assms
proof (induction ys)
  case Nil
  then show ?case by simp
next
  case (Cons y ys)
  show ?case
  proof (cases "compareAlternatives x y \<le> 0")
    case True
    with Cons.prems show ?thesis
      by (auto intro: compareAlternatives_trans)
  next
    case False
    then have "compareAlternatives y x \<le> 0" by (rule compareAlternatives_total)
    with False Cons show ?thesis
      by (auto simp add: set_insertBy)
  qed
qed

lemma sorted_array_sort:
  "sorted_wrt (\<lambda>a b. compareAlternatives a b \<le> 0) (array_sort compareAlternatives xs)"
  by (induction xs) (auto intro: sorted_insertBy)

lemma filter_insertBy:
  assumes "\<And>y. P x \<Longrightarrow> P y \<Longrightarrow> f x y \<le> 0"
  shows "filter P (insertBy f x ys) = (if P x then x # filter P ys else filter P ys)"
  using assms by (induction ys) auto

lemma filter_array_sort:
  assumes "\<And>x y. P x \<Longrightarrow> P y \<Longrightarrow> f x y \<le> 0"
  shows "filter P (array_sort f xs) = filter P xs"
proof (induction xs)
  case Nil
  show ?case by simp
next
  case (Cons x xs)
  have "filter P (insertBy f x (array_sort f xs))
        = (if P x then x # filter P (array_sort f xs) else filter P (array_sort f xs))"
    by (rule filter_insertBy) (rule assms)
  with Cons show ?case by simp
qed

lemma same_key_compare:
  assumes "(open_at_time x = Some True) = opn \<and> vibeOrZero x = v"
    and "(open_at_time y = Some True) = opn \<and> vibeOrZero y = v"
  shows "compareAlternatives x y \<le> 0"
  using assms unfolding compareAlternatives_le_iff by auto

lemma rankAlternatives_eq: "rankAlternatives scored = take 5 (sortedSurvivors scored)"
  by (simp add: rankAlternatives_def sortedSurvivors_def)

lemma sortedSurvivors_order:
  assumes "i < j" "j < length (sortedSurvivors scored)"
  shows "compareAlternatives (sortedSurvivors scored ! i) (sortedSurvivors scored ! j) \<le> 0"
  using sorted_array_sort[of "filter keptAtTime scored"] assms
  unfolding sortedSurvivors_def sorted_wrt_iff_nth_less by blast

lemma scoreShortlist_Inr:
  "scoreShortlist fetchCsi lighting cs = Inr scored \<Longrightarrow>
   map open_at_time scored = map open_at_time cs \<and> map name scored = map name cs"
proof (induction cs arbitrary: scored)
  case Nil
  then show ?case by simp
next
  case (Cons c cs)
  from Cons.prems obtain csi scored' where
    "fetchCsi (location c) = Inr csi" "scoreShortlist fetchCsi lighting cs = Inr scored'"
    "scored = c\<lparr> c_vibe_score := Some (vibeScore csi lighting),
                 c_risk_level := Some (riskLevelFromVibe (vibeScore csi lighting)) \<rparr> # scored'"
    by (auto simp add: Let_def split: sum.splits)
  with Cons.IH[of scored'] show ?case by simp
qed

text \<open>
  Where the ranker sits in \<open>findAlternatives\<close>: it receives the scored shortlist, the
  first 10 candidates of the discovery, each with its \<open>vibe_score\<close> and \<open>risk_level\<close>.
\<close>

lemma findAlternatives_Inr:
  assumes "findAlternatives placeResult nearby fetchCsi radianceInput = Inr alts"
  shows "\<exists>dest candidates radiance scored.
           placeResult = Inr (Some dest) \<and> nearby (location dest) = Inr candidates \<and>
           radianceInput = Some radiance \<and>
           scoreShortlist fetchCsi (lightingScoreFromRadiance radiance) (take 10 candidates)
             = Inr scored \<and>
           alts = rankAlternatives scored"
  using assms unfolding findAlternatives_def Let_def
  by (auto split: sum.splits option.splits)

text \<open>
  The last three statements of \<open>findAlternatives\<close>, on the list that reaches them: the
  survivors are exactly the candidates whose \<open>open_at_time\<close> is not \<open>false\<close>, in sorted
  order no candidate that is not open precedes an open one, among candidates of the same
  openness the \<open>vibe_score\<close> does not increase, ties on both keys keep their input
  order, and the result is the first 5 of the sorted survivors.
\<close>

lemma rankAlternatives_sorted_survivors:
  "set (sortedSurvivors scored) = {p \<in> set scored. open_at_time p \<noteq> Some False}
   \<and> mset (sortedSurvivors scored) = mset (filter (\<lambda>p. open_at_time p \<noteq> Some False) scored)
   \<and> (i < j \<and> j < length (sortedSurvivors scored) \<longrightarrow>
        (open_at_time (sortedSurvivors scored ! j) = Some True \<longrightarrow>
           open_at_time (sortedSurvivors scored ! i) = Some True)
        \<and> ((open_at_time (sortedSurvivors scored ! i) = Some True)
             = (open_at_time (sortedSurvivors scored ! j) = Some True) \<longrightarrow>
           vibeOrZero (sortedSurvivors scored ! j) \<le> vibeOrZero (sortedSurvivors scored ! i)))
   \<and> filter (\<lambda>p. (open_at_time p = Some True) = opn \<and> vibeOrZero p = v) (sortedSurvivors scored)
     = filter (\<lambda>p. (open_at_time p = Some True) = opn \<and> vibeOrZero p = v)
         (filter (\<lambda>p. open_at_time p \<noteq> Some False) scored)
   \<and> rankAlternatives scored = take 5 (sortedSurvivors scored)
   \<and> length (rankAlternatives scored) \<le> 5"
proof -
  have kept: "filter keptAtTime scored = filter (\<lambda>p. open_at_time p \<noteq> Some False) scored"
    by (simp add: keptAtTime_def[abs_def])
  have 1: "mset (sortedSurvivors scored) = mset (filter (\<lambda>p. open_at_time p \<noteq> Some False) scored)"
    unfolding sortedSurvivors_def kept by (rule mset_array_sort)
  have 2: "set (sortedSurvivors scored) = {p \<in> set scored. open_at_time p \<noteq> Some False}"
    unfolding sortedSurvivors_def kept set_array_sort by simp
  have 3: "(open_at_time (sortedSurvivors scored ! j) = Some True \<longrightarrow>
           open_at_time (sortedSurvivors scored ! i) = Some True)
        \<and> ((open_at_time (sortedSurvivors scored ! i) = Some True)
             = (open_at_time (sortedSurvivors scored ! j) = Some True) \<longrightarrow>
           vibeOrZero (sortedSurvivors scored ! j) \<le> vibeOrZero (sortedSurvivors scored ! i))"
    if "i < j \<and> j < length (sortedSurvivors scored)"
    using sortedSurvivors_order[of i j scored] that
    unfolding compareAlternatives_le_iff by auto
  have 4: "filter (\<lambda>p. (open_at_time p = Some True) = opn \<and> vibeOrZero p = v) (sortedSurvivors scored)
     = filter (\<lambda>p. (open_at_time p = Some True) = opn \<and> vibeOrZero p = v)
         (filter (\<lambda>p. open_at_time p \<noteq> Some False) scored)"
    unfolding sortedSurvivors_def kept
    by (rule filter_array_sort) (rule same_key_compare)
  have 5: "length (rankAlternatives scored) \<le> 5"
    by (simp add: rankAlternatives_eq)
  from 1 2 3 4 5 rankAlternatives_eq[of scored] show ?thesis by blast
qed

lemma scoreShortlist_success:
  assumes "\<forall>c \<in> set cs. fetchCsi (location c) = Inr (csiAt (location c))"
  shows "scoreShortlist fetchCsi lighting cs = Inr (map (scoreWith csiAt lighting) cs)"
  using assms by (induction cs) (simp_all add: scoreWith_def Let_def)

lemma open_at_time_scoreWith [simp]:
  "open_at_time (scoreWith csiAt lighting c) = open_at_time c"
  by (simp add: scoreWith_def)

lemma findAlternatives_success:
  assumes "placeResult = Inr (Some dest)" and "nearby (location dest) = Inr candidates"
    and "radianceInput = Some radiance"
    and "\<forall>c \<in> set (take 10 candidates). fetchCsi (location c) = Inr (csiAt (location c))"
  shows "findAlternatives placeResult nearby fetchCsi radianceInput
         = Inr (take 5 (sortedSurvivors (scoredShortlist csiAt radiance candidates)))"
  using assms(1-3) scoreShortlist_success[OF assms(4)]
  by (simp add: findAlternatives_def Let_def scoredShortlist_def rankAlternatives_eq)

text \<open>Every successful run is one in which each shortlisted baseline was obtained.\<close>

lemma scoreShortlist_Inr_fetched:
  "scoreShortlist fetchCsi lighting cs = Inr scored \<Longrightarrow>
   \<forall>c \<in> set cs. fetchCsi (location c)
     = Inr (case fetchCsi (location c) of Inr x \<Rightarrow> x | Inl e \<Rightarrow> 0)"
proof (induction cs arbitrary: scored)
  case Nil
  then show ?case by simp
next
  case (Cons c cs)
  from Cons.prems obtain csi scored' where
    "fetchCsi (location c) = Inr csi" "scoreShortlist fetchCsi lighting cs = Inr scored'"
    by (auto simp add: Let_def split: sum.splits)
  with Cons.IH[of scored'] show ?case by simp
qed

lemma findAlternatives_Inr_fetched:
  assumes "findAlternatives placeResult nearby fetchCsi radianceInput = Inr alts"
  shows "\<exists>dest candidates radiance csiAt.
           placeResult = Inr (Some dest) \<and> nearby (location dest) = Inr candidates \<and>
           radianceInput = Some radiance \<and>
           (\<forall>c \<in> set (take 10 candidates). fetchCsi (location c) = Inr (csiAt (location c)))"
proof -
  from findAlternatives_Inr[OF assms] obtain dest :: PlaceCandidate and candidates radiance scored
    where 1: "placeResult = Inr (Some dest)" and 2: "nearby (location dest) = Inr candidates"
      and 3: "radianceInput = Some radiance"
      and 4: "scoreShortlist fetchCsi (lightingScoreFromRadiance radiance) (take 10 candidates)
                = Inr scored"
    by (elim exE conjE) (rule that; assumption)
  let ?csiAt = "\<lambda>loc. case fetchCsi loc of Inr x \<Rightarrow> x | Inl e \<Rightarrow> 0"
  from scoreShortlist_Inr_fetched[OF 4]
  have 5: "\<forall>c \<in> set (take 10 candidates). fetchCsi (location c) = Inr (?csiAt (location c))" .
  show ?thesis
    by (rule exI[of _ dest], rule exI[of _ candidates], rule exI[of _ radiance],
        rule exI[of _ ?csiAt]) (intro conjI 1 2 3 5)
qed

text \<open>
  Claim C4, as stated: ten closed candidates followed by an open one. The open
  candidate is not closed, so the claim has it kept and returned; \<open>findAlternatives\<close>
  cuts the list to its first 10 before it scores and filters, and returns nothing.
\<close>

theorem findAlternatives_eleventh_candidate_counterexample:
  "open_at_time (venue ''K'' (Some True)) \<noteq> Some False
   \<and> findAlternatives (Inr (Some (place ''Soho'' 51.5 0)))
       (\<lambda>center. Inr (replicate 10 (venue ''X'' (Some False)) @ [venue ''K'' (Some True)]))
       (\<lambda>loc. Inr 10) (Some 15)
     = Inr []"
proof -
  let ?cs = "replicate 10 (venue ''X'' (Some False)) @ [venue ''K'' (Some True)]"
  have t: "take 10 ?cs = replicate 10 (venue ''X'' (Some False))" by simp
  have "findAlternatives (Inr (Some (place ''Soho'' 51.5 0))) (\<lambda>center. Inr ?cs)
          (\<lambda>loc. Inr 10) (Some 15)
        = Inr (take 5 (sortedSurvivors (scoredShortlist (\<lambda>loc. 10) 15 ?cs)))"
    by (rule findAlternatives_success[where dest = "place ''Soho'' 51.5 0"]) simp_all
  moreover have "sortedSurvivors (scoredShortlist (\<lambda>loc. 10) 15 ?cs) = []"
    unfolding scoredShortlist_def t
    by (simp add: sortedSurvivors_def keptAtTime_def venue_def)
  ultimately show ?thesis by (simp add: venue_def)
qed

text \<open>
  Claim C4, amended. When the place, the discovery, the radiance and the crime
  baseline of each shortlisted candidate are obtained, \<open>findAlternatives\<close> returns the
  first 5 of the sorted survivors of the shortlist, the first 10 candidates, each
  scored with its own baseline. The survivors are exactly the shortlisted candidates
  whose \<open>open_at_time\<close> is not \<open>false\<close> (none lost, added or duplicated); in sorted order no
  candidate that is not open precedes an open one, among candidates of the same
  openness the \<open>vibe_score\<close> does not increase, and candidates that tie on both keys
  keep their input order.
\<close>

theorem findAlternatives_shortlist_filter_sort_top5:
  assumes "placeResult = Inr (Some dest)" and "nearby (location dest) = Inr candidates"
    and "radianceInput = Some radiance"
    and "\<forall>c \<in> set (take 10 candidates). fetchCsi (location c) = Inr (csiAt (location c))"
  shows
  "findAlternatives placeResult nearby fetchCsi radianceInput
     = Inr (take 5 (sortedSurvivors (scoredShortlist csiAt radiance candidates)))
   \<and> length (take 5 (sortedSurvivors (scoredShortlist csiAt radiance candidates))) \<le> 5
   \<and> mset (sortedSurvivors (scoredShortlist csiAt radiance candidates))
     = mset (map (scoreWith csiAt (lightingScoreFromRadiance radiance))
              (filter (\<lambda>c. open_at_time c \<noteq> Some False) (take 10 candidates)))
   \<and> (i < j \<and> j < length (sortedSurvivors (scoredShortlist csiAt radiance candidates)) \<longrightarrow>
        (open_at_time (sortedSurvivors (scoredShortlist csiAt radiance candidates) ! j) = Some True
           \<longrightarrow>
         open_at_time (sortedSurvivors (scoredShortlist csiAt radiance candidates) ! i) = Some True)
        \<and> ((open_at_time (sortedSurvivors (scoredShortlist csiAt radiance candidates) ! i) = Some True)
             = (open_at_time (sortedSurvivors (scoredShortlist csiAt radiance candidates) ! j)
                = Some True) \<longrightarrow>
           vibeOrZero (sortedSurvivors (scoredShortlist csiAt radiance candidates) ! j)
             \<le> vibeOrZero (sortedSurvivors (scoredShortlist csiAt radiance candidates) ! i)))
   \<and> filter (\<lambda>p. (open_at_time p = Some True) = opn \<and> vibeOrZero p = v)
        (sortedSurvivors (scoredShortlist csiAt radiance candidates))
     = filter (\<lambda>p. (open_at_time p = Some True) = opn \<and> vibeOrZero p = v)
        (map (scoreWith csiAt (lightingScoreFromRadiance radiance))
          (filter (\<lambda>c. open_at_time c \<noteq> Some False) (take 10 candidates)))"
proof -
  let ?S = "scoredShortlist csiAt radiance candidates"
  let ?score = "scoreWith csiAt (lightingScoreFromRadiance radiance)"
  have kept: "filter (\<lambda>p. open_at_time p \<noteq> Some False) ?S
              = map ?score (filter (\<lambda>c. open_at_time c \<noteq> Some False) (take 10 candidates))"
    by (simp add: scoredShortlist_def filter_map comp_def)
  note r = rankAlternatives_sorted_survivors[of ?S i j opn v, unfolded kept]
  have 1: "findAlternatives placeResult nearby fetchCsi radianceInput = Inr (take 5 (sortedSurvivors ?S))"
    using assms by (rule findAlternatives_success)
  have 2: "length (take 5 (sortedSurvivors ?S)) \<le> 5" by simp
  from 1 2 r show ?thesis by blast
qed

text \<open>
  A run: four candidates, all with baseline 10 at radiance 15 (score 89). The closed
  \<open>A\<close> is dropped, the open \<open>B\<close> and \<open>D\<close> come first in their input order, then \<open>C\<close>.
\<close>

lemma sortedSurvivors_four_venues:
  "sortedSurvivors (scoredShortlist (\<lambda>loc. 10) 15
     [venue ''A'' (Some False), venue ''B'' (Some True), venue ''C'' None, venue ''D'' (Some True)])
   = [scoreWith (\<lambda>loc. 10) 85 (venue ''B'' (Some True)),
      scoreWith (\<lambda>loc. 10) 85 (venue ''D'' (Some True)),
      scoreWith (\<lambda>loc. 10) 85 (venue ''C'' None)]"
proof -
  have l: "lightingScoreFromRadiance 15 = 85" by (simp add: lightingScoreFromRadiance_def)
  have v: "vibeScore 10 85 = 89" by (simp add: vibeScore_def eval64)
  show ?thesis
    by (simp add: scoredShortlist_def sortedSurvivors_def l scoreWith_def v keptAtTime_def
        compareAlternatives_def vibeOrZero_def venue_def)
qed

theorem findAlternatives_shortlist_filter_sort_top5_witness:
  "nearby_four (location (place ''Soho'' 51.5 0))
     = Inr [venue ''A'' (Some False), venue ''B'' (Some True), venue ''C'' None,
            venue ''D'' (Some True)]
   \<and> list_all (\<lambda>c. (Inr 10 :: error + number) = Inr ((\<lambda>loc. 10) (location c)))
       (take 10 [venue ''A'' (Some False), venue ''B'' (Some True), venue ''C'' None,
                 venue ''D'' (Some True)])
   \<and> findAlternatives (Inr (Some (place ''Soho'' 51.5 0))) nearby_four (\<lambda>loc. Inr 10) (Some 15)
     = Inr [scoreWith (\<lambda>loc. 10) 85 (venue ''B'' (Some True)),
            scoreWith (\<lambda>loc. 10) 85 (venue ''D'' (Some True)),
            scoreWith (\<lambda>loc. 10) 85 (venue ''C'' None)]
   \<and> (0::nat) < 1
   \<and> open_at_time (scoreWith (\<lambda>loc. 10) 85 (venue ''D'' (Some True))) = Some True
   \<and> open_at_time (scoreWith (\<lambda>loc. 10) 85 (venue ''B'' (Some True))) = Some True
   \<and> vibeOrZero (scoreWith (\<lambda>loc. 10) 85 (venue ''D'' (Some True)))
       \<le> vibeOrZero (scoreWith (\<lambda>loc. 10) 85 (venue ''B'' (Some True)))"
proof -
  let ?cs = "[venue ''A'' (Some False), venue ''B'' (Some True), venue ''C'' None,
              venue ''D'' (Some True)]"
  have h1: "(Inr (Some (place ''Soho'' 51.5 0)) :: error + PlaceCandidate option)
            = Inr (Some (place ''Soho'' 51.5 0))" by simp
  have h2: "nearby_four (location (place ''Soho'' 51.5 0)) = Inr ?cs"
    by (simp add: nearby_four_def)
  have h3: "Some (15::real) = Some 15" by simp
  have h4: "\<forall>c \<in> set (take 10 ?cs). (\<lambda>loc. Inr 10 :: error + number) (location c)
              = Inr ((\<lambda>loc. 10) (location c))" by simp
  note t = findAlternatives_shortlist_filter_sort_top5
      [where placeResult = "Inr (Some (place ''Soho'' 51.5 0))"
         and dest = "place ''Soho'' 51.5 0" and nearby = nearby_four and candidates = ?cs
         and radianceInput = "Some 15" and radiance = 15
         and fetchCsi = "\<lambda>loc. Inr 10" and csiAt = "\<lambda>loc. 10"
         and i = 0 and j = 1 and opn = True and v = 89,
       OF h1 h2 h3 h4, unfolded sortedSurvivors_four_venues]
  have k: "vibeOrZero (scoreWith (\<lambda>loc. 10) 85 (venue ''D'' (Some True)))
           \<le> vibeOrZero (scoreWith (\<lambda>loc. 10) 85 (venue ''B'' (Some True)))"
    by (simp add: vibeOrZero_def scoreWith_def)
  from t h2 k show ?thesis by (simp add: venue_def)
qed

text \<open>
  Claim C3, as stated: the ranking of \<open>[A, B, C]\<close> is not \<open>[C, B]\<close>.
\<close>

theorem rankAlternatives_scenario_counterexample:
  "rankAlternatives [cand_A, cand_B, cand_C] \<noteq> [cand_C, cand_B]"
  by (simp add: rankAlternatives_def keptAtTime_def compareAlternatives_def vibeOrZero_def
      cand_A_def cand_B_def cand_C_def cand_def)

text \<open>
  Claim C3, amended: \<open>A\<close> is dropped as closed and the open \<open>B\<close> comes before \<open>C\<close>, whose
  hours are unknown, although \<open>C\<close> has the higher score: the result is \<open>[B, C]\<close>.
\<close>

theorem rankAlternatives_open_before_unknown:
  "rankAlternatives [cand_A, cand_B, cand_C] = [cand_B, cand_C]"
  by (simp add: rankAlternatives_def keptAtTime_def compareAlternatives_def vibeOrZero_def
      cand_A_def cand_B_def cand_C_def cand_def)

subsection \<open>Crime baseline\<close>

lemma vibeScore_clamps_csi:
  "vibeScore csi l = vibeScore (clamp100 csi) l
   \<and> socialWarmthProxy csi l = socialWarmthProxy (clamp100 csi) l"
  by (simp add: vibeScore_def socialWarmthProxy_def clamp100_def Let_def)

lemma fetchCrimeoMeterCsi_backend_finite:
  "fetchCrimeoMeterCsi_backend coerce (Inr (csi_response x)) = Inr x"
  by (simp add: fetchCrimeoMeterCsi_backend_def csi_response_def res_ok_def)

lemma fetchCrimeoMeterCsi_direct_finite:
  "fetchCrimeoMeterCsi_direct coerce (Inr (csi_response x)) = Inr (clamp100 x)"
  by (simp add: fetchCrimeoMeterCsi_direct_def csi_response_def res_ok_def clamp100_eq)

lemma fetchCrimeoMeterCsi_direct_range:
  assumes "fetchCrimeoMeterCsi_direct coerce fetched = Inr csi"
  shows "0 \<le> csi \<and> csi \<le> 100"
  using assms unfolding fetchCrimeoMeterCsi_direct_def
  by (auto split: sum.splits option.splits if_splits)

lemma round_clamped:
  fixes csi :: real
  assumes "0 \<le> csi \<and> csi \<le> 100"
  shows "0 \<le> real_of_int (round csi) \<and> real_of_int (round csi) \<le> 100"
  using assms by (intro of_int_round_range) simp_all

text \<open>With the direct fetch the reported baseline is in range.\<close>

lemma assess_direct_crime_baseline:
  assumes "assess placeResult (\<lambda>loc. fetchCrimeoMeterCsi_direct coerce (upstream loc))
             radianceInput classify = Inr result"
  shows "0 \<le> crime_baseline result \<and> crime_baseline result \<le> 100"
proof -
  from assess_Inr[OF assms] obtain dest :: PlaceCandidate and csi radiance modelOut where
    c: "fetchCrimeoMeterCsi_direct coerce (upstream (location dest)) = Inr csi"
    and res: "result = assembleFinalResult (vibeScore csi (lightingScoreFromRadiance radiance))
                      (lightingScoreFromRadiance radiance) (of_int (round csi))
                      (socialWarmthProxy csi (lightingScoreFromRadiance radiance))
                      (modelOut\<lparr> m_risk_level :=
                         riskLevelFromVibe (vibeScore csi (lightingScoreFromRadiance radiance)) \<rparr>)"
    by (elim exE conjE) (rule that; assumption)
  have r: "crime_baseline result = of_int (round csi)"
    unfolding res by (simp add: assembleFinalResult_def)
  from fetchCrimeoMeterCsi_direct_range[OF c] show ?thesis
    unfolding r by (rule round_clamped)
qed

text \<open>
  Claim C5, the failing run. The backend answers \<open>{"csi": 150}\<close>. The proxy variant of
  \<open>fetchCrimeoMeterCsi\<close> returns 150 unclamped; \<open>vibeScore\<close> and \<open>socialWarmthProxy\<close>
  clamp it at their point of use (the scores are those of \<open>csi = 100\<close>), but \<open>assess\<close>
  stores \<open>Math.round(csi)\<close>, so the result has \<open>crime_baseline = 150\<close>.
\<close>

theorem assess_backend_crime_baseline_unclamped:
  "assess (Inr (Some (place ''Soho'' 51.5 0)))
     (\<lambda>loc. fetchCrimeoMeterCsi_backend (\<lambda>v. None) (Inr (csi_response 150)))
     (Some 6.3) (\<lambda>args. Inr model_says_unsafe)
   = Inr \<lparr> vibe_score = 20, risk_level = UNSAFE, classification = C_SAFE, social_warmth = 46,
           lighting_score = 65, crime_baseline = 150, confidence = 0.9,
           safe_haven_nearby = False, rationale = ''ok'' \<rparr>"
  by (simp add: assess_def fetchCrimeoMeterCsi_backend_finite place_def
      lightingScoreFromRadiance_def vibeScore_def socialWarmthProxy_def riskLevelFromVibe_def
      assembleFinalResult_def eval64 model_says_unsafe_def)

subsection \<open>Mismatch classifier\<close>

lemma z_risk_level_Some:
  "z_risk_level v = Some rl \<Longrightarrow>
   \<exists>s. v = Some (JStr s) \<and> s \<in> {''SAFE'', ''CAUTION'', ''UNSAFE''}"
  by (simp add: z_risk_level_def split: option.splits json.splits if_splits)

lemma z_risk_level_ok:
  "s \<in> {''SAFE'', ''CAUTION'', ''UNSAFE''} \<Longrightarrow> \<exists>rl. z_risk_level (Some (JStr s)) = Some rl"
  by (auto simp add: z_risk_level_def)

lemma z_classification_Some:
  "z_classification v = Some cl \<Longrightarrow>
   \<exists>s. v = Some (JStr s) \<and>
       s \<in> {''SAFE'', ''UNSAFE'', ''SOCIAL_BALANCED'', ''INFRA_MISMATCH'', ''UNCERTAIN''}"
  by (simp add: z_classification_def split: option.splits json.splits if_splits)

lemma z_classification_ok:
  "s \<in> {''SAFE'', ''UNSAFE'', ''SOCIAL_BALANCED'', ''INFRA_MISMATCH'', ''UNCERTAIN''} \<Longrightarrow>
   \<exists>cl. z_classification (Some (JStr s)) = Some cl"
  by (auto simp add: z_classification_def)

lemma z_confidence_Some:
  "z_confidence v = Some x \<longleftrightarrow> v = Some (JNum x) \<and> 0 \<le> x \<and> x \<le> 1"
  by (auto simp add: z_confidence_def split: option.splits json.splits if_splits)

lemma z_rationale_Some:
  "z_rationale v = Some t \<longleftrightarrow> v = Some (JStr t) \<and> length t \<le> 240"
  by (auto simp add: z_rationale_def split: option.splits json.splits if_splits)

text \<open>
  The schema-validated variant is strict: whatever \<open>outputSchema.parse\<close> returns conforms
  to the schema, with \<open>confidence\<close> and \<open>rationale\<close> exactly as received.
\<close>

lemma outputSchema_parse_Inr:
  assumes "outputSchema_parse j = Inr m"
  shows "conforms_schema j
         \<and> (\<exists>kvs. j = JObj kvs \<and> map_of kvs ''confidence'' = Some (JNum (m_confidence m))
                 \<and> map_of kvs ''rationale'' = Some (JStr (m_rationale m)))"
proof -
  from assms obtain kvs where j: "j = JObj kvs"
    by (cases j) (simp_all add: outputSchema_parse_def)
  from assms j obtain rl where 1: "z_risk_level (map_of kvs ''risk_level'') = Some rl"
    by (cases "z_risk_level (map_of kvs ''risk_level'')") (simp_all add: outputSchema_parse_def)
  from assms j 1 obtain cl where 2: "z_classification (map_of kvs ''classification'') = Some cl"
    by (cases "z_classification (map_of kvs ''classification'')")
       (simp_all add: outputSchema_parse_def)
  from assms j 1 2 obtain x where 3: "z_confidence (map_of kvs ''confidence'') = Some x"
    by (cases "z_confidence (map_of kvs ''confidence'')") (simp_all add: outputSchema_parse_def)
  from assms j 1 2 3 obtain t where 4: "z_rationale (map_of kvs ''rationale'') = Some t"
    by (cases "z_rationale (map_of kvs ''rationale'')") (simp_all add: outputSchema_parse_def)
  from assms j 1 2 3 4 have m: "m_confidence m = x" "m_rationale m = t"
    by (auto simp add: outputSchema_parse_def)
  from z_risk_level_Some[OF 1] obtain r
    where r: "map_of kvs ''risk_level'' = Some (JStr r)" "r \<in> {''SAFE'', ''CAUTION'', ''UNSAFE''}"
    by (elim exE conjE)
  from z_classification_Some[OF 2] obtain c
    where c: "map_of kvs ''classification'' = Some (JStr c)"
      "c \<in> {''SAFE'', ''UNSAFE'', ''SOCIAL_BALANCED'', ''INFRA_MISMATCH'', ''UNCERTAIN''}"
    by (elim exE conjE)
  from 3 have x: "map_of kvs ''confidence'' = Some (JNum x)" "0 \<le> x" "x \<le> 1"
    by (simp_all only: z_confidence_Some)
  from 4 have t: "map_of kvs ''rationale'' = Some (JStr t)" "length t \<le> 240"
    by (simp_all only: z_rationale_Some)
  have "conforms_schema j"
    unfolding conforms_schema_def
    by (rule exI[of _ kvs], rule exI[of _ r], rule exI[of _ c], rule exI[of _ x], rule exI[of _ t])
       (intro conjI j r c x t)
  moreover have "\<exists>kvs. j = JObj kvs \<and> map_of kvs ''confidence'' = Some (JNum (m_confidence m))
                 \<and> map_of kvs ''rationale'' = Some (JStr (m_rationale m))"
    unfolding m by (rule exI[of _ kvs]) (intro conjI j x(1) t(1))
  ultimately show ?thesis by (rule conjI)
qed

lemma outputSchema_parse_conforms:
  assumes "conforms_schema j"
  shows "\<exists>m. outputSchema_parse j = Inr m"
proof -
  from assms obtain kvs r c x t where j: "j = JObj kvs"
    and r: "map_of kvs ''risk_level'' = Some (JStr r)" "r \<in> {''SAFE'', ''CAUTION'', ''UNSAFE''}"
    and c: "map_of kvs ''classification'' = Some (JStr c)"
        "c \<in> {''SAFE'', ''UNSAFE'', ''SOCIAL_BALANCED'', ''INFRA_MISMATCH'', ''UNCERTAIN''}"
    and x: "map_of kvs ''confidence'' = Some (JNum x)" "0 \<le> x" "x \<le> 1"
    and t: "map_of kvs ''rationale'' = Some (JStr t)" "length t \<le> 240"
    unfolding conforms_schema_def by (elim exE conjE) (rule that; assumption)
  from z_risk_level_ok[OF r(2)] obtain rl where 1: "z_risk_level (Some (JStr r)) = Some rl"
    by (elim exE)
  from z_classification_ok[OF c(2)] obtain cl where 2: "z_classification (Some (JStr c)) = Some cl"
    by (elim exE)
  have 3: "z_confidence (Some (JNum x)) = Some x" using x by (simp add: z_confidence_Some)
  have 4: "z_rationale (Some (JStr t)) = Some t" using t by (simp add: z_rationale_Some)
  show ?thesis using j r(1) c(1) x(1) t(1) 1 2 3 4
    by (simp add: outputSchema_parse_def)
qed

lemma outputSchema_parse_strict:
  "\<not> conforms_schema j \<Longrightarrow> outputSchema_parse j = Inl ZodError"
proof -
  assume n: "\<not> conforms_schema j"
  have e: "outputSchema_parse j = Inl ZodError \<or> (\<exists>m. outputSchema_parse j = Inr m)"
    unfolding outputSchema_parse_def by (simp split: json.splits option.splits)
  from n outputSchema_parse_Inr have "\<nexists>m. outputSchema_parse j = Inr m" by blast
  with e show ?thesis by blast
qed

lemma geminiClassify_strict:
  "\<not> conforms_schema j \<Longrightarrow> geminiClassify (Inr (Some j)) = Inl ZodError"
  by (simp add: geminiClassify_def outputSchema_parse_strict)

lemma invalid_classification_body_rejected:
  "geminiClassify (Inr (Some invalid_classification_body)) = Inl ZodError"
  by (simp add: geminiClassify_def outputSchema_parse_def invalid_classification_body_def
      z_risk_level_def)

lemma invalid_classification_body_not_conforms:
  "\<not> conforms_schema invalid_classification_body"
proof
  assume "conforms_schema invalid_classification_body"
  then obtain m where "outputSchema_parse invalid_classification_body = Inr m"
    using outputSchema_parse_conforms by blast
  then show False
    by (simp add: outputSchema_parse_def invalid_classification_body_def z_risk_level_def)
qed

text \<open>
  Claim C2, the failing run. The backend answers with \<open>risk_level = "MAYBE"\<close> and
  \<open>confidence = 1.5\<close>. The proxy variant of \<open>geminiClassify\<close> returns both as they are,
  where the schema-validated variant throws; on an empty object it substitutes the
  confidence 0.55 and the empty rationale; a rationale of 241 characters is cut to 240.
\<close>

theorem geminiClassify_backend_accepts_invalid:
  "geminiClassify_backend (\<lambda>v. None) (\<lambda>v. []) (Inr (classify_response invalid_classification_body))
   = Inr \<lparr> raw_risk_level = Some (JStr ''MAYBE''), raw_classification = Some (JStr ''SAFE''),
           raw_confidence = Some 1.5, raw_rationale = ''CSI high, lighting low'' \<rparr>
   \<and> geminiClassify (Inr (Some invalid_classification_body)) = Inl ZodError
   \<and> geminiClassify_backend (\<lambda>v. None) (\<lambda>v. []) (Inr (classify_response (JObj [])))
   = Inr \<lparr> raw_risk_level = None, raw_classification = None,
           raw_confidence = Some 0.55, raw_rationale = [] \<rparr>
   \<and> geminiClassify_backend (\<lambda>v. None) (\<lambda>v. [])
       (Inr (classify_response (JObj [(''rationale'', JStr (replicate 241 (CHR ''a'')))])))
   = Inr \<lparr> raw_risk_level = None, raw_classification = None,
           raw_confidence = Some 0.55, raw_rationale = replicate 240 (CHR ''a'') \<rparr>"
proof (intro conjI)
  show "geminiClassify_backend (\<lambda>v. None) (\<lambda>v. []) (Inr (classify_response invalid_classification_body))
   = Inr \<lparr> raw_risk_level = Some (JStr ''MAYBE''), raw_classification = Some (JStr ''SAFE''),
           raw_confidence = Some 1.5, raw_rationale = ''CSI high, lighting low'' \<rparr>"
    by (simp add: geminiClassify_backend_def classify_response_def res_ok_def
        invalid_classification_body_def)
  show "geminiClassify (Inr (Some invalid_classification_body)) = Inl ZodError"
    by (rule invalid_classification_body_rejected)
  show "geminiClassify_backend (\<lambda>v. None) (\<lambda>v. []) (Inr (classify_response (JObj [])))
   = Inr \<lparr> raw_risk_level = None, raw_classification = None,
           raw_confidence = Some 0.55, raw_rationale = [] \<rparr>"
    by (simp add: geminiClassify_backend_def classify_response_def res_ok_def)
  show "geminiClassify_backend (\<lambda>v. None) (\<lambda>v. [])
       (Inr (classify_response (JObj [(''rationale'', JStr (replicate 241 (CHR ''a'')))])))
   = Inr \<lparr> raw_risk_level = None, raw_classification = None,
           raw_confidence = Some 0.55, raw_rationale = replicate 240 (CHR ''a'') \<rparr>"
    by (simp add: geminiClassify_backend_def classify_response_def res_ok_def)
qed

end
